theory Spec2Isabelle
  imports
    Complex_Main
    "HOL-Library.Word"
    "HOL-Library.Sublist"
    "HOL-Library.Char_ord"
    "HOL-Library.List_Lexorder"
begin

section \<open>The request engine of methods.go\<close>

text \<open>
  The development embeds the request-dispatch and response-decoding engine of
  \<^verbatim>\<open>methods.go\<close>: \<^verbatim>\<open>checkIfFileParamExists\<close>, \<^verbatim>\<open>paramToString\<close>, \<^verbatim>\<open>request\<close>,
  \<^verbatim>\<open>requestMultipartFormData\<close>, \<^verbatim>\<open>requestURLEncodedFormData\<close>,
  \<^verbatim>\<open>requestMessageOrBool\<close>, \<^verbatim>\<open>handleWebhook\<close> and \<^verbatim>\<open>getExtension\<close>.

  Go strings and byte slices are both sequences of bytes; an Isabelle \<open>char\<close> is one
  byte, so both are \<open>char list\<close>. An \<^verbatim>\<open>error\<close> is represented by its text.
\<close>

subsection \<open>Data\<close>

type_synonym bytes = "char list"

text \<open>
  \<^verbatim>\<open>InputFile\<close> is declared outside methods.go; the engine reads the four fields below.
  The three pointer fields are \<open>None\<close> when nil.
\<close>

record InputFile =
  URL :: "string option"
  FileID :: "string option"
  Filepath :: "string option"
  Bytes :: bytes

text \<open>
  An \<^verbatim>\<open>*os.File\<close>: its descriptor, the name \<^verbatim>\<open>Name()\<close> returns, the bytes a reader gets
  from it before the end of the file or a read error, and that read error if any.
\<close>

record os_file =
  fd :: nat
  fname :: string
  fcontent :: bytes
  freadErr :: "string option"

text \<open>
  An IEEE 754 single-precision number: \<open>Finite neg m e\<close> is \<open>\<plusminus> m * 2 ^ e\<close>
  (for a \<^verbatim>\<open>float32\<close>, \<open>m < 2 ^ 24\<close> and \<open>-149 \<le> e \<le> 104\<close>).
\<close>

datatype float32 = Finite bool nat int | Infinite bool | NaN

definition is_float32 :: "float32 \<Rightarrow> bool" where
  "is_float32 f =
     (case f of Finite neg m e \<Rightarrow> m < 2 ^ 24 \<and> - 149 \<le> e \<and> e \<le> 104 | _ \<Rightarrow> True)"

definition float32_abs :: "float32 \<Rightarrow> real" where
  "float32_abs f = (case f of Finite neg m e \<Rightarrow> real m * 2 powi e | _ \<Rightarrow> 0)"

text \<open>
  A value of Go's \<^verbatim>\<open>any\<close>, by the dynamic types the type switches of the engine
  tell apart; \<open>VOther\<close> is a value of any other type (\<open>'v\<close>).
\<close>

datatype 'v any =
    VInt "64 word"
  | VInt64 "64 word"
  | VFloat32 float32
  | VBool bool
  | VString string
  | VChatAction string
  | VParseMode string
  | VInputFile InputFile
  | VOsFile os_file
  | VBytes bytes
  | VOther 'v

text \<open>
  \<^verbatim>\<open>map[string]any\<close>: the association list gives the entries in the order in which one
  \<^verbatim>\<open>range\<close> loop visits them (Go leaves that order unspecified, and it may differ
  from one loop to the next); the keys of a Go map are distinct.
\<close>

type_synonym 'v params = "(string \<times> 'v any) list"

definition is_params :: "'v params \<Rightarrow> bool" where
  "is_params ps = distinct (map fst ps)"

record http_request =
  req_url :: string
  req_headers :: "(string \<times> string) list"
  req_body :: bytes

text \<open>
  What \<^verbatim>\<open>httpClient.Do\<close> gives: an error, or a response whose body \<^verbatim>\<open>io.ReadAll\<close>
  either fails to read (\<open>Inl\<close>) or returns (\<open>Inr\<close>).
\<close>

datatype http_result = DoError string | DoResponse "string + bytes"

datatype log_entry = LogVerbose string | LogError string

text \<open>
  The state the engine acts on: the diagnostics written by \<^verbatim>\<open>b.verbose\<close> and
  \<^verbatim>\<open>b.error\<close> (their format strings; the two functions are not in methods.go), the
  descriptors that are open, the next descriptor \<^verbatim>\<open>os.Open\<close> hands out, and the
  requests given to the HTTP client.
\<close>

record world =
  logs :: "log_entry list"
  opened :: "nat list"
  next_fd :: nat
  outbox :: "http_request list"

record Bot =
  token :: string

text \<open>
  What the engine uses and methods.go does not define: the constant \<^verbatim>\<open>apiBaseURL\<close>,
  the placeholder of \<^verbatim>\<open>b.redact\<close>, and the functions of Go's standard library whose
  results depend on data outside the program or on a table of the library.
  \<open>errorfVerbs\<close> is what \<^verbatim>\<open>fmt.Errorf\<close> makes of a format string that contains a
  \<open>%\<close> when it is given no operand.
\<close>

record 'v env =
  apiBaseURL :: string
  redactedString :: string
  jsonMarshal :: "'v any \<Rightarrow> string + string"
  queryEscape :: "string \<Rightarrow> string"
  escapeQuotes :: "string \<Rightarrow> string"
  DetectContentType :: "bytes \<Rightarrow> string"
  osOpen :: "string \<Rightarrow> string + bytes \<times> string option"
  newRequestErr :: "string \<Rightarrow> string option"
  httpDo :: "http_request \<Rightarrow> http_result"
  errorfVerbs :: "string \<Rightarrow> string"

definition b_verbose :: "string \<Rightarrow> world \<Rightarrow> world" where
  "b_verbose fmt w = w\<lparr>logs := logs w @ [LogVerbose fmt]\<rparr>"

definition b_error :: "string \<Rightarrow> world \<Rightarrow> world" where
  "b_error fmt w = w\<lparr>logs := logs w @ [LogError fmt]\<rparr>"

subsection \<open>Text forms of numbers\<close>

definition digit_char :: "nat \<Rightarrow> char" where
  "digit_char n = ''0123456789'' ! (n mod 10)"

function dec_nat :: "nat \<Rightarrow> string" where
  "dec_nat n = (if n < 10 then [digit_char n] else dec_nat (n div 10) @ [digit_char n])"
  by pat_completeness auto
termination
  by (relation "measure id") auto

declare dec_nat.simps [simp del]

text \<open>\<^verbatim>\<open>strconv.Itoa\<close> and \<^verbatim>\<open>strconv.FormatInt(_, 10)\<close>.\<close>

definition FormatInt :: "int \<Rightarrow> string" where
  "FormatInt i = (if i < 0 then ''-'' @ dec_nat (nat (- i)) else dec_nat (nat i))"

definition FormatBool :: "bool \<Rightarrow> string" where
  "FormatBool v = (if v then ''true'' else ''false'')"

text \<open>
  \<^verbatim>\<open>fmt.Sprintf("%.8f", val)\<close> for a \<^verbatim>\<open>float32\<close>: the exact binary value, rounded to
  eight decimals (a tie goes to the even digit), as an optional minus sign, the
  integer part, a point and eight digits.
\<close>

definition round_half_even :: "nat \<Rightarrow> nat \<Rightarrow> nat" where
  "round_half_even num den =
     (let q = num div den; r = num mod den
      in if den < 2 * r \<or> (2 * r = den \<and> odd q) then q + 1 else q)"

definition scaled8 :: "nat \<Rightarrow> int \<Rightarrow> nat" where
  "scaled8 m e =
     (if 0 \<le> e then m * 2 ^ nat e * 10 ^ 8
      else round_half_even (m * 10 ^ 8) (2 ^ nat (- e)))"

definition pad8 :: "string \<Rightarrow> string" where
  "pad8 d = replicate (8 - length d) (CHR ''0'') @ d"

fun Sprintf_8f :: "float32 \<Rightarrow> string" where
  "Sprintf_8f NaN = ''NaN''"
| "Sprintf_8f (Infinite neg) = (if neg then ''-Inf'' else ''+Inf'')"
| "Sprintf_8f (Finite neg m e) =
     (let n = scaled8 m e
      in (if neg then ''-'' else '''') @ dec_nat (n div 10 ^ 8) @ ''.'' @
         pad8 (dec_nat (n mod 10 ^ 8)))"

subsection \<open>checkIfFileParamExists and paramToString\<close>

fun checkIfFileParamExists :: "'v params \<Rightarrow> bool" where
  "checkIfFileParamExists [] = False"
| "checkIfFileParamExists ((key, value) # rest) =
     (case value of
        VOsFile f \<Rightarrow> True
      | VBytes bs \<Rightarrow> True
      | VInputFile val \<Rightarrow>
          (if 0 < length (Bytes val) \<or> Filepath val \<noteq> None then True
           else checkIfFileParamExists rest)
      | _ \<Rightarrow> checkIfFileParamExists rest)"

definition paramToString ::
  "'v env \<Rightarrow> 'v any \<Rightarrow> world \<Rightarrow> (string \<times> bool) \<times> world" where
  "paramToString env param w =
     (case param of
        VInt val \<Rightarrow> ((FormatInt (sint val), True), w)
      | VInt64 val \<Rightarrow> ((FormatInt (sint val), True), w)
      | VFloat32 val \<Rightarrow> ((Sprintf_8f val, True), w)
      | VBool val \<Rightarrow> ((FormatBool val, True), w)
      | VString val \<Rightarrow> ((val, True), w)
      | VChatAction val \<Rightarrow> ((val, True), w)
      | VParseMode val \<Rightarrow> ((val, True), w)
      | VInputFile val \<Rightarrow>
          (case URL val of
             Some u \<Rightarrow> ((u, True), w)
           | None \<Rightarrow>
               (case FileID val of
                  Some i \<Rightarrow> ((i, True), w)
                | None \<Rightarrow>
                    (('''', False),
                     b_error ''parameter '%+v' could not be cast to string value'' w)))
      | _ \<Rightarrow>
          (case jsonMarshal env param of
             Inr js \<Rightarrow> ((js, True), w)
           | Inl err \<Rightarrow>
               (('''', False),
                b_error ''parameter '%+v' could not be encoded as json: %s'' w)))"

subsection \<open>The HTTP exchange\<close>

text \<open>
  Both dispatchers end with the same statements: \<^verbatim>\<open>http.NewRequest("POST", apiURL, body)\<close>,
  the headers, \<^verbatim>\<open>b.httpClient.Do(req)\<close> and \<^verbatim>\<open>io.ReadAll(resp.Body)\<close>, with the three
  wrapped errors. \<open>exchange\<close> is that common tail; the result is the pair
  \<^verbatim>\<open>(resp, err)\<close>, \<open>None\<close> for a nil error.
\<close>

definition exchange ::
  "'v env \<Rightarrow> string \<Rightarrow> (string \<times> string) list \<Rightarrow> bytes \<Rightarrow> world \<Rightarrow>
     (bytes \<times> string option) \<times> world" where
  "exchange env apiURL headers body w =
     (case newRequestErr env apiURL of
        None \<Rightarrow>
          (let req = \<lparr>req_url = apiURL, req_headers = headers, req_body = body\<rparr>;
               w1 = w\<lparr>outbox := outbox w @ [req]\<rparr>
           in case httpDo env req of
                DoResponse (Inr bs) \<Rightarrow> ((bs, None), w1)
              | DoResponse (Inl e) \<Rightarrow>
                  (let err = ''response read error: '' @ e
                   in (([], Some err), b_error err w1))
              | DoError e \<Rightarrow>
                  (let err = ''request error: '' @ e
                   in (([], Some err), b_error err w1)))
      | Some e \<Rightarrow>
          (let err = ''building request error: '' @ e
           in (([], Some err), b_error err w)))"

subsection \<open>requestURLEncodedFormData\<close>

text \<open>
  \<^verbatim>\<open>url.Values\<close> is a map from a key to a list of values; \<^verbatim>\<open>Encode\<close> writes
  \<open>key=value\<close>, both escaped, for the keys in sorted order, joined by \<open>&\<close>.
\<close>

type_synonym url_values = "(string \<times> string list) list"

definition values_set :: "string \<Rightarrow> string list \<Rightarrow> url_values \<Rightarrow> url_values" where
  "values_set k vs pv = (k, vs) # filter (\<lambda>kv. fst kv \<noteq> k) pv"

fun join_amp :: "string list \<Rightarrow> string" where
  "join_amp [] = []"
| "join_amp [x] = x"
| "join_amp (x # y # ys) = x @ ''&'' @ join_amp (y # ys)"

definition values_get :: "url_values \<Rightarrow> string \<Rightarrow> string list" where
  "values_get pv k = (case map_of pv k of Some vs \<Rightarrow> vs | None \<Rightarrow> [])"

definition Encode :: "'v env \<Rightarrow> url_values \<Rightarrow> string" where
  "Encode env pv =
     join_amp
       (concat
          (map (\<lambda>k. map (\<lambda>v. queryEscape env k @ ''='' @ queryEscape env v) (values_get pv k))
             (sort (remdups (map fst pv)))))"

fun urlencodedFields ::
  "'v env \<Rightarrow> 'v params \<Rightarrow> url_values \<times> world \<Rightarrow> url_values \<times> world" where
  "urlencodedFields env [] (pv, w) = (pv, w)"
| "urlencodedFields env ((key, value) # rest) (pv, w) =
     (case paramToString env value w of
        ((strValue, ok), w') \<Rightarrow>
          urlencodedFields env rest
            (if ok then values_set key [strValue] pv else pv, w'))"

definition requestURLEncodedFormData ::
  "'v env \<Rightarrow> string \<Rightarrow> 'v params \<Rightarrow> world \<Rightarrow> (bytes \<times> string option) \<times> world" where
  "requestURLEncodedFormData env apiURL params w =
     (case urlencodedFields env params ([], w) of
        (paramValues, w1) \<Rightarrow>
          (let encoded = Encode env paramValues
           in exchange env apiURL
                [(''Content-Type'', ''application/x-www-form-urlencoded''),
                 (''Content-Length'', FormatInt (int (length encoded)))]
                encoded w1))"

subsection \<open>requestMultipartFormData\<close>

text \<open>
  \<^verbatim>\<open>multipart.Writer\<close> over a \<^verbatim>\<open>bytes.Buffer\<close>: the boundary (drawn at random by
  \<^verbatim>\<open>multipart.NewWriter\<close>, so an input here), the bytes written so far, and whether a
  part has been started. Writing to a buffer cannot fail, so the creation of a part
  and \<^verbatim>\<open>Close\<close> return a nil error; \<^verbatim>\<open>io.Copy\<close> fails when its source does.
\<close>

record writer =
  boundary :: string
  wbuf :: bytes
  lastpart :: bool

definition CRLF :: string where
  "CRLF = [CHR 0x0D, CHR 0x0A]"

definition dquote :: string where
  "dquote = [CHR 0x22]"

definition NewWriter :: "string \<Rightarrow> writer" where
  "NewWriter bnd = \<lparr>boundary = bnd, wbuf = [], lastpart = False\<rparr>"

definition CreatePart :: "writer \<Rightarrow> (string \<times> string) list \<Rightarrow> string option \<times> writer" where
  "CreatePart wr header =
     (None,
      wr\<lparr>wbuf := wbuf wr @ (if lastpart wr then CRLF else []) @ ''--'' @ boundary wr @ CRLF @
                 concat (map (\<lambda>kv. fst kv @ '': '' @ snd kv @ CRLF) header) @ CRLF,
         lastpart := True\<rparr>)"

definition CreateFormFile ::
  "'v env \<Rightarrow> writer \<Rightarrow> string \<Rightarrow> string \<Rightarrow> string option \<times> writer" where
  "CreateFormFile env wr fieldname filename =
     CreatePart wr
       [(''Content-Disposition'',
         ''form-data; name='' @ dquote @ escapeQuotes env fieldname @ dquote @
         ''; filename='' @ dquote @ escapeQuotes env filename @ dquote),
        (''Content-Type'', ''application/octet-stream'')]"

definition io_Copy :: "writer \<Rightarrow> bytes \<Rightarrow> string option \<Rightarrow> string option \<times> writer" where
  "io_Copy wr src srcErr = (srcErr, wr\<lparr>wbuf := wbuf wr @ src\<rparr>)"

definition WriteField :: "'v env \<Rightarrow> writer \<Rightarrow> string \<Rightarrow> string \<Rightarrow> string option \<times> writer" where
  "WriteField env wr fieldname val =
     (case CreatePart wr
             [(''Content-Disposition'',
               ''form-data; name='' @ dquote @ escapeQuotes env fieldname @ dquote)] of
        (Some e, wr1) \<Rightarrow> (Some e, wr1)
      | (None, wr1) \<Rightarrow> (None, wr1\<lparr>wbuf := wbuf wr1 @ val\<rparr>))"

definition Writer_Close :: "writer \<Rightarrow> string option \<times> writer" where
  "Writer_Close wr = (None, wr\<lparr>wbuf := wbuf wr @ CRLF @ ''--'' @ boundary wr @ ''--'' @ CRLF\<rparr>)"

definition tspecials :: string where
  "tspecials = ''()<>@,;:'' @ [CHR 0x5C, CHR 0x22] @ ''/[]?= ''"

definition FormDataContentType :: "writer \<Rightarrow> string" where
  "FormDataContentType wr =
     ''multipart/form-data; boundary='' @
     (if \<exists>c \<in> set (boundary wr). c \<in> set tspecials
      then dquote @ boundary wr @ dquote else boundary wr)"

subsection \<open>getExtension\<close>

text \<open>\<^verbatim>\<open>strings.Split\<close> with a separator of one byte.\<close>

fun Split :: "char \<Rightarrow> string \<Rightarrow> string list" where
  "Split sep [] = [[]]"
| "Split sep (c # cs) =
     (if c = sep then [] # Split sep cs
      else (case Split sep cs of [] \<Rightarrow> [[c]] | x # xs \<Rightarrow> (c # x) # xs))"

definition getExtension :: "'v env \<Rightarrow> bytes \<Rightarrow> string" where
  "getExtension env bs =
     (let types = Split (CHR ''/'') (DetectContentType env bs)
      in if 2 \<le> length types
         then (let splitted = Split (CHR '';'') (types ! 1)
               in if 1 \<le> length splitted then splitted ! 0 else [])
         else [])"

subsection \<open>The fields of a multipart body\<close>

text \<open>
  \<^verbatim>\<open>os.Open\<close> hands out the next descriptor; \<^verbatim>\<open>Close\<close> removes a descriptor from the
  open ones. A deferred \<^verbatim>\<open>Close\<close> is kept in a list, last deferred first, and run when
  the function returns.
\<close>

definition file_Close :: "nat \<Rightarrow> world \<Rightarrow> world" where
  "file_Close d w = w\<lparr>opened := removeAll d (opened w)\<rparr>"

fun run_deferred :: "nat list \<Rightarrow> world \<Rightarrow> world" where
  "run_deferred [] w = w"
| "run_deferred (d # ds) w = run_deferred ds (file_Close d w)"

text \<open>
  The four places that write a form file do the same: \<^verbatim>\<open>CreateFormFile\<close>, then
  \<^verbatim>\<open>io.Copy\<close>, and one of two diagnostics on failure.
\<close>

definition formFile ::
  "'v env \<Rightarrow> writer \<Rightarrow> string \<Rightarrow> string \<Rightarrow> bytes \<Rightarrow> string option \<Rightarrow> string \<Rightarrow> string \<Rightarrow>
     world \<Rightarrow> writer \<times> world" where
  "formFile env wr key filename src srcErr msgWrite msgCreate w =
     (case CreateFormFile env wr key filename of
        (None, wr1) \<Rightarrow>
          (case io_Copy wr1 src srcErr of
             (Some e, wr2) \<Rightarrow> (wr2, b_error msgWrite w)
           | (None, wr2) \<Rightarrow> (wr2, w))
      | (Some e, wr1) \<Rightarrow> (wr1, b_error msgCreate w))"

definition multipartField ::
  "'v env \<Rightarrow> string \<Rightarrow> 'v any \<Rightarrow> writer \<times> nat list \<times> world \<Rightarrow> writer \<times> nat list \<times> world" where
  "multipartField env key value st =
     (case st of (wr, dfr, w) \<Rightarrow>
      (case value of
         VOsFile val \<Rightarrow>
           (case formFile env wr key (fname val) (fcontent val) (freadErr val)
                   ''could not write to multipart: %s''
                   ''could not create form file for parameter '%s' (%v)'' w of
              (wr1, w1) \<Rightarrow> (wr1, fd val # dfr, w1))
       | VBytes fbytes \<Rightarrow>
           (case formFile env wr key (key @ ''.'' @ getExtension env fbytes) fbytes None
                   ''could not write to multipart: %s''
                   ''could not create form file for parameter '%s' ([]byte)'' w of
              (wr1, w1) \<Rightarrow> (wr1, dfr, w1))
       | VInputFile inputFile \<Rightarrow>
           (case Filepath inputFile of
              Some path \<Rightarrow>
                (case osOpen env path of
                   Inr (src, srcErr) \<Rightarrow>
                     (let d = next_fd w;
                          w0 = w\<lparr>opened := d # opened w, next_fd := Suc d\<rparr>
                      in case formFile env wr key path src srcErr
                                ''could not write to multipart: %s''
                                ''could not create form file for parameter '%s' (%v)'' w0 of
                           (wr1, w1) \<Rightarrow> (wr1, d # dfr, w1))
                 | Inl e \<Rightarrow>
                     (wr, dfr,
                      b_error ''parameter '%s' (%v) could not be read from file: %s'' w))
            | None \<Rightarrow>
                (if 0 < length (Bytes inputFile) then
                   (case formFile env wr key
                           (key @ ''.'' @ getExtension env (Bytes inputFile))
                           (Bytes inputFile) None
                           ''could not write InputFile to multipart: %s''
                           ''could not create form file for parameter '%s' (InputFile)'' w of
                      (wr1, w1) \<Rightarrow> (wr1, dfr, w1))
                 else
                   (case paramToString env value w of
                      ((strValue, True), w1) \<Rightarrow>
                        (case WriteField env wr key strValue of
                           (Some e, wr1) \<Rightarrow>
                             (wr1, dfr,
                              b_error ''failed to write field with key: %s, value: %s (%s)'' w1)
                         | (None, wr1) \<Rightarrow> (wr1, dfr, w1))
                    | ((strValue, False), w1) \<Rightarrow>
                        (wr, dfr, b_error (''invalid InputFile parameter '%s'' @ [CHR 0x27]) w1))))
       | _ \<Rightarrow>
           (case paramToString env value w of
              ((strValue, True), w1) \<Rightarrow>
                (case WriteField env wr key strValue of
                   (Some e, wr1) \<Rightarrow>
                     (wr1, dfr,
                      b_error ''failed to write filed with key: %s, value: %s (%s)'' w1)
                 | (None, wr1) \<Rightarrow> (wr1, dfr, w1))
            | ((strValue, False), w1) \<Rightarrow> (wr, dfr, w1))))"

fun multipartFields ::
  "'v env \<Rightarrow> 'v params \<Rightarrow> writer \<times> nat list \<times> world \<Rightarrow> writer \<times> nat list \<times> world" where
  "multipartFields env [] st = st"
| "multipartFields env ((key, value) # rest) st =
     multipartFields env rest (multipartField env key value st)"

definition requestMultipartFormData ::
  "'v env \<Rightarrow> string \<Rightarrow> string \<Rightarrow> 'v params \<Rightarrow> world \<Rightarrow> (bytes \<times> string option) \<times> world" where
  "requestMultipartFormData env apiURL bnd params w =
     (case multipartFields env params (NewWriter bnd, [], w) of
        (wr, dfr, w1) \<Rightarrow>
          (case Writer_Close wr of
             (cerr, wr1) \<Rightarrow>
               (let w2 = (case cerr of
                            Some e \<Rightarrow> b_error ''error while closing writer (%s)'' w1
                          | None \<Rightarrow> w1)
                in case exchange env apiURL
                          [(''Content-Type'', FormDataContentType wr1)] (wbuf wr1) w2 of
                     (res, w3) \<Rightarrow> (res, run_deferred dfr w3))))"

subsection \<open>request\<close>

text \<open>
  Modelled from the spec: \<^verbatim>\<open>b.redact\<close> is not in methods.go. The spec's Error Redactor
  replaces the authentication token by a fixed placeholder wherever it appears: every
  occurrence, from the left; an empty token has no occurrence and leaves the text as
  it is.
\<close>

function replace_all :: "string \<Rightarrow> string \<Rightarrow> string \<Rightarrow> string" where
  "replace_all old new s =
     (if old = [] \<or> s = [] then s
      else if prefix old s then new @ replace_all old new (drop (length old) s)
      else hd s # replace_all old new (tl s))"
  by pat_completeness auto
termination
  by (relation "measure (\<lambda>(old, new, s). length s)") auto

declare replace_all.simps [simp del]

definition redact :: "'v env \<Rightarrow> Bot \<Rightarrow> string \<Rightarrow> string" where
  "redact env b str = replace_all (token b) (redactedString env) str"

text \<open>
  \<^verbatim>\<open>fmt.Errorf(format)\<close> without operands: a format without \<open>%\<close> is the text of the
  error; otherwise the verbs are rewritten by the library.
\<close>

definition Errorf :: "'v env \<Rightarrow> string \<Rightarrow> string" where
  "Errorf env format = (if CHR ''%'' \<in> set format then errorfVerbs env format else format)"

text \<open>
  \<open>bnd\<close> is the boundary \<^verbatim>\<open>multipart.NewWriter\<close> draws if the multipart path is taken.
\<close>

definition request ::
  "'v env \<Rightarrow> Bot \<Rightarrow> string \<Rightarrow> string \<Rightarrow> 'v params \<Rightarrow> world \<Rightarrow>
     (bytes \<times> string option) \<times> world" where
  "request env b bnd method params w =
     (let apiURL = apiBaseURL env @ token b @ ''/'' @ method;
          w0 = b_verbose ''sending request to api url: %s, params: %#v'' w
      in case (if checkIfFileParamExists params
               then requestMultipartFormData env apiURL bnd params w0
               else requestURLEncodedFormData env apiURL params w0) of
           ((resp, None), w1) \<Rightarrow> ((resp, None), w1)
         | ((resp, Some err), w1) \<Rightarrow> (([], Some (Errorf env (redact env b err))), w1))"

subsection \<open>requestMessageOrBool\<close>

text \<open>
  Modelled from the spec: the types \<^verbatim>\<open>APIResponse[T]\<close> and \<^verbatim>\<open>APIResponseMessageOrBool\<close>
  are declared outside methods.go. The spec's envelope has \<open>ok\<close>, an optional result,
  an optional description and an optional error code; the dual envelope has \<open>ok\<close>, an
  optional description and the two result slots. \<open>'m\<close> is the type \<^verbatim>\<open>Message\<close>.
\<close>

record 'a APIResponse =
  Ok :: bool
  Description :: "string option"
  Result :: "'a option"
  ErrorCode :: "int option"

record 'm APIResponseMessageOrBool =
  Ok_mb :: bool
  Description_mb :: "string option"
  ResultMessage :: "'m option"
  ResultBool :: "bool option"

text \<open>
  \<^verbatim>\<open>json.Unmarshal\<close> into a value of a given type is a function of the bytes for each
  target type: \<open>Inl\<close> its error, \<open>Inr\<close> the decoded value.
\<close>

definition requestMessageOrBool ::
  "'v env \<Rightarrow> (bytes \<Rightarrow> string + 'm APIResponse) \<Rightarrow> (bytes \<Rightarrow> string + bool APIResponse) \<Rightarrow>
     Bot \<Rightarrow> string \<Rightarrow> string \<Rightarrow> 'v params \<Rightarrow> world \<Rightarrow> 'm APIResponseMessageOrBool \<times> world" where
  "requestMessageOrBool env unmarshalMessage unmarshalBool b bnd method params w =
     (case request env b bnd method params w of
        ((bs, None), w1) \<Rightarrow>
          (case unmarshalMessage bs of
             Inr jsonResponseMessage \<Rightarrow>
               (\<lparr>Ok_mb = True,
                 Description_mb = Description jsonResponseMessage,
                 ResultMessage = Result jsonResponseMessage,
                 ResultBool = None\<rparr>, w1)
           | Inl err \<Rightarrow>
               (case unmarshalBool bs of
                  Inr jsonResponseBool \<Rightarrow>
                    (\<lparr>Ok_mb = True,
                      Description_mb = Description jsonResponseBool,
                      ResultMessage = None,
                      ResultBool = Result jsonResponseBool\<rparr>, w1)
                | Inl err' \<Rightarrow>
                    (let errStr = ''json parse error: not in Message nor bool type ('' @ bs @ '')''
                     in (\<lparr>Ok_mb = False, Description_mb = Some errStr,
                          ResultMessage = None, ResultBool = None\<rparr>,
                         b_error errStr w1))))
      | ((bs, Some err), w1) \<Rightarrow>
          (let errStr = method @ '' failed with error: '' @ err
           in (\<lparr>Ok_mb = False, Description_mb = Some errStr,
                ResultMessage = None, ResultBool = None\<rparr>,
               b_error errStr w1)))"

subsection \<open>handleWebhook\<close>

text \<open>
  \<open>reqBody\<close> is what \<^verbatim>\<open>io.ReadAll(req.Body)\<close> gives, \<open>emptyUpdate\<close> is \<^verbatim>\<open>Update{}\<close>. The
  first component of the result lists the calls of \<^verbatim>\<open>b.updateHandler\<close>, each with the
  update and the error it is given.
\<close>

definition handleWebhook ::
  "(bytes \<Rightarrow> string + 'u) \<Rightarrow> 'u \<Rightarrow> string + bytes \<Rightarrow> world \<Rightarrow>
     ('u \<times> string option) list \<times> world" where
  "handleWebhook unmarshalUpdate emptyUpdate reqBody w =
     (let w0 = b_verbose ''received webhook request: %+v'' w
      in case reqBody of
           Inr body \<Rightarrow>
             (case unmarshalUpdate body of
                Inl err \<Rightarrow> ([], b_error ''error while parsing json (%s)'' w0)
              | Inr webhook \<Rightarrow>
                  ([(webhook, None)], b_verbose ''received webhook body: %s'' w0))
         | Inl err \<Rightarrow>
             ([(emptyUpdate, Some err)],
              b_error ''error while reading webhook request (%s)'' w0))"

definition is_attachment :: "'v any \<Rightarrow> bool" where
  "is_attachment v =
     (case v of
        VOsFile f \<Rightarrow> True
      | VBytes bs \<Rightarrow> True
      | VInputFile i \<Rightarrow> Bytes i \<noteq> [] \<or> Filepath i \<noteq> None
      | _ \<Rightarrow> False)"

definition sent_by :: "world \<Rightarrow> world \<Rightarrow> http_request list" where
  "sent_by w w' = drop (length (outbox w)) (outbox w')"

definition content_type :: "http_request \<Rightarrow> string option" where
  "content_type r = map_of (req_headers r) ''Content-Type''"

definition only_logs :: "world \<Rightarrow> world \<Rightarrow> bool" where
  "only_logs w w' \<longleftrightarrow>
     opened w' = opened w \<and> next_fd w' = next_fd w \<and> outbox w' = outbox w"

definition file_of :: "'v any \<Rightarrow> nat list" where
  "file_of v = (case v of VOsFile f \<Rightarrow> [fd f] | _ \<Rightarrow> [])"

definition param_files :: "'v params \<Rightarrow> nat list" where
  "param_files ps = concat (map (\<lambda>kv. file_of (snd kv)) ps)"

definition empty_world :: world where
  "empty_world = \<lparr>logs = [], opened = [], next_fd = 0, outbox = []\<rparr>"

definition param_text :: "'v env \<Rightarrow> 'v any \<Rightarrow> string" where
  "param_text env v = fst (fst (paramToString env v empty_world))"

definition param_ok :: "'v env \<Rightarrow> 'v any \<Rightarrow> bool" where
  "param_ok env v = snd (fst (paramToString env v empty_world))"

definition sent_fields :: "'v env \<Rightarrow> 'v params \<Rightarrow> string \<rightharpoonup> string list" where
  "sent_fields env ps k =
     (case map_of ps k of
        Some v \<Rightarrow> if param_ok env v then Some [param_text env v] else None
      | None \<Rightarrow> None)"

text \<open>The fields that reach the body: the keys whose value encodes, sorted.\<close>

definition sent_keys :: "'v env \<Rightarrow> 'v params \<Rightarrow> string list" where
  "sent_keys env ps = sort (map fst (filter (\<lambda>kv. param_ok env (snd kv)) ps))"

definition urlencoded_body :: "'v env \<Rightarrow> 'v params \<Rightarrow> string" where
  "urlencoded_body env ps =
     join_amp (map (\<lambda>k. queryEscape env k @ ''='' @
                          queryEscape env (param_text env (the (map_of ps k))))
                 (sent_keys env ps))"

definition request_url :: "'v env \<Rightarrow> Bot \<Rightarrow> string \<Rightarrow> string" where
  "request_url env b method = apiBaseURL env @ token b @ ''/'' @ method"

definition hex_digit :: "nat \<Rightarrow> char" where
  "hex_digit n = ''0123456789ABCDEF'' ! (n mod 16)"

definition unreserved :: "char \<Rightarrow> bool" where
  "unreserved c \<longleftrightarrow>
     (CHR ''a'' \<le> c \<and> c \<le> CHR ''z'') \<or> (CHR ''A'' \<le> c \<and> c \<le> CHR ''Z'') \<or>
     (CHR ''0'' \<le> c \<and> c \<le> CHR ''9'') \<or> c \<in> set ''-_.~''"

definition QueryEscape :: "string \<Rightarrow> string" where
  "QueryEscape s =
     concat (map (\<lambda>c. if unreserved c then [c]
                       else if c = CHR '' '' then ''+''
                       else [CHR ''%'', hex_digit (of_char c div 16), hex_digit (of_char c)]) s)"

definition png_magic :: bytes where
  "png_magic = [CHR 0x89, CHR ''P'', CHR ''N'', CHR ''G'', CHR 0x0D, CHR 0x0A, CHR 0x1A, CHR 0x0A]"

definition jpeg_magic :: bytes where
  "jpeg_magic = [CHR 0xFF, CHR 0xD8, CHR 0xFF]"

definition sample_sniff :: "bytes \<Rightarrow> string" where
  "sample_sniff bs =
     (if prefix png_magic bs then ''image/png''
      else if prefix jpeg_magic bs then ''image/jpeg''
      else ''application/octet-stream'')"

definition sample_marshal :: "string option any \<Rightarrow> string + string" where
  "sample_marshal v =
     (case v of
        VOther (Some js) \<Rightarrow> Inr js
      | VOther None \<Rightarrow> Inl ''json: unsupported type: chan int''
      | _ \<Rightarrow> Inr ''{}'')"

definition sample_env :: "http_result \<Rightarrow> string option env" where
  "sample_env net =
     \<lparr>apiBaseURL = ''https://api.telegram.org/bot'',
      redactedString = ''<REDACTED>'',
      jsonMarshal = sample_marshal,
      queryEscape = QueryEscape,
      escapeQuotes = (\<lambda>s. s),
      DetectContentType = sample_sniff,
      osOpen = (\<lambda>p. if p = ''a.png'' then Inr (''PIXELS'', None)
                    else Inl (''open '' @ p @ '': no such file or directory'')),
      newRequestErr = (\<lambda>u. None),
      httpDo = (\<lambda>r. net),
      errorfVerbs = (\<lambda>s. s)\<rparr>"

definition sample_bot :: Bot where
  "sample_bot = \<lparr>token = ''123:abc''\<rparr>"

definition no_file :: InputFile where
  "no_file = \<lparr>URL = None, FileID = None, Filepath = None, Bytes = []\<rparr>"

definition opens :: "'v env \<Rightarrow> 'v any \<Rightarrow> nat" where
  "opens env v =
     (case v of
        VInputFile i \<Rightarrow>
          (case Filepath i of
             Some p \<Rightarrow> (case osOpen env p of Inr f \<Rightarrow> 1 | Inl e \<Rightarrow> 0)
           | None \<Rightarrow> 0)
      | _ \<Rightarrow> 0)"

definition files_opened :: "'v env \<Rightarrow> 'v params \<Rightarrow> nat" where
  "files_opened env ps = sum_list (map (\<lambda>kv. opens env (snd kv)) ps)"

definition sample_world :: world where
  "sample_world = \<lparr>logs = [], opened = [3, 4], next_fd = 5, outbox = []\<rparr>"

definition sample_doc :: os_file where
  "sample_doc = \<lparr>fd = 3, fname = ''d.txt'', fcontent = ''hello'', freadErr = None\<rparr>"

definition sample_upload :: "string option params" where
  "sample_upload =
     [(''photo'', VInputFile (no_file\<lparr>Filepath := Some ''a.png''\<rparr>)),
      (''chat_id'', VInt 42),
      (''doc'', VOsFile sample_doc)]"

definition sample_message :: "string option params" where
  "sample_message =
     [(''text'', VString ''hi there''),
      (''chat_id'', VInt 42),
      (''bad'', VOther None),
      (''f'', VInputFile no_file)]"

text \<open>
  Sample decoders for the bodies the specification names; a \<^verbatim>\<open>Message\<close> is represented
  by its message id, an \<^verbatim>\<open>Update\<close> by its update id.
\<close>

definition body_message :: bytes where
  \<open>body_message = ''{"ok":true,"result":{"message_id":5}}''\<close>

definition body_true :: bytes where
  \<open>body_true = ''{"ok":true,"result":true}''\<close>

definition body_string :: bytes where
  \<open>body_string = ''{"ok":true,"result":"not an object or bool"}''\<close>

definition body_failure :: bytes where
  \<open>body_failure = ''{"ok":false,"description":"Bad Request"}''\<close>

definition sample_unmarshalMessage :: "bytes \<Rightarrow> string + nat APIResponse" where
  "sample_unmarshalMessage bs =
     (if bs = body_message
      then Inr \<lparr>Ok = True, Description = None, Result = Some 5, ErrorCode = None\<rparr>
      else if bs = body_failure
      then Inr \<lparr>Ok = False, Description = Some ''Bad Request'', Result = None, ErrorCode = None\<rparr>
      else Inl ''json: cannot unmarshal into Go struct field APIResponse.result'')"

definition sample_unmarshalBool :: "bytes \<Rightarrow> string + bool APIResponse" where
  "sample_unmarshalBool bs =
     (if bs = body_true
      then Inr \<lparr>Ok = True, Description = None, Result = Some True, ErrorCode = None\<rparr>
      else if bs = body_failure
      then Inr \<lparr>Ok = False, Description = Some ''Bad Request'', Result = None, ErrorCode = None\<rparr>
      else Inl ''json: cannot unmarshal into Go struct field APIResponse.result of type bool'')"

definition sample_unmarshalUpdate :: "bytes \<Rightarrow> string + nat" where
  \<open>sample_unmarshalUpdate bs =
     (if bs = ''{"update_id":7}'' then Inr 7
      else Inl ''invalid character'')\<close>

definition sample_answer :: "bytes \<Rightarrow> string option env" where
  "sample_answer bs = sample_env (DoResponse (Inr bs))"

text \<open>
  The two ways in which \<^verbatim>\<open>paramToString\<close> fails: an \<^verbatim>\<open>InputFile\<close> with neither URL nor
  file id, and a value of no known kind that \<^verbatim>\<open>json.Marshal\<close> rejects.
\<close>

definition encoder_fails :: "'v env \<Rightarrow> 'v any \<Rightarrow> bool" where
  "encoder_fails env v =
     (case v of
        VInputFile i \<Rightarrow> URL i = None \<and> FileID i = None
      | VOsFile f \<Rightarrow> isl (jsonMarshal env v)
      | VBytes bs \<Rightarrow> isl (jsonMarshal env v)
      | VOther x \<Rightarrow> isl (jsonMarshal env v)
      | _ \<Rightarrow> False)"

definition urlencoded_request :: "'v env \<Rightarrow> string \<Rightarrow> 'v params \<Rightarrow> http_request" where
  "urlencoded_request env url ps =
     \<lparr>req_url = url,
      req_headers =
        [(''Content-Type'', ''application/x-www-form-urlencoded''),
         (''Content-Length'', FormatInt (int (length (urlencoded_body env ps))))],
      req_body = urlencoded_body env ps\<rparr>"

definition sample_png :: bytes where
  "sample_png = png_magic @ ''IHDR''"

definition sample_photo :: "string option params" where
  "sample_photo = [(''chat_id'', VInt 42), (''photo'', VBytes sample_png)]"

definition not_slash :: "char \<Rightarrow> bool" where
  "not_slash c \<longleftrightarrow> c \<noteq> CHR ''/''"

definition not_semicolon :: "char \<Rightarrow> bool" where
  "not_semicolon c \<longleftrightarrow> c \<noteq> CHR '';''"

text \<open>The number a decimal text stands for.\<close>

definition digit_value :: "char \<Rightarrow> nat" where
  "digit_value c = of_char c - 48"

definition dec_value :: "string \<Rightarrow> nat" where
  "dec_value s = foldl (\<lambda>a c. 10 * a + digit_value c) 0 s"

definition is_digit :: "char \<Rightarrow> bool" where
  "is_digit c \<longleftrightarrow> CHR ''0'' \<le> c \<and> c \<le> CHR ''9''"

section \<open>Properties\<close>

lemma checkIfFileParamExists_iff:
  "checkIfFileParamExists ps \<longleftrightarrow> (\<exists>kv \<in> set ps. is_attachment (snd kv))"
  by (induction ps rule: checkIfFileParamExists.induct)
     (auto simp: is_attachment_def split: any.splits)

lemma paramToString_world:
  "\<exists>l. snd (paramToString env v w) = w\<lparr>logs := logs w @ l\<rparr>"
  unfolding paramToString_def b_error_def
  by (cases v) (auto split: option.splits sum.splits intro: exI[of _ "[]"])

lemma paramToString_outbox [simp]: "outbox (snd (paramToString env v w)) = outbox w"
  using paramToString_world[of env v w] by (auto)

lemma urlencodedFields_outbox:
  "outbox (snd (urlencodedFields env ps (pv, w))) = outbox w"
proof (induction ps arbitrary: pv w)
  case Nil then show ?case by simp
next
  case (Cons a ps)
  obtain k v where a: "a = (k, v)" by (cases a)
  obtain s ok w1 where p: "paramToString env v w = ((s, ok), w1)" by (metis prod.exhaust)
  have "outbox w1 = outbox w" using paramToString_outbox[of env v w] p by simp
  then show ?case using Cons.IH a p by simp
qed

lemma exchange_outbox:
  "exchange env url hs body w = (res, w') \<Longrightarrow>
     outbox w' = outbox w @ (if newRequestErr env url = None then [\<lparr>req_url = url, req_headers = hs, req_body = body\<rparr>] else [])"
  unfolding exchange_def b_error_def
  by (auto simp: Let_def split: option.splits http_result.splits sum.splits)

lemma b_error_sel [simp]:
  "opened (b_error m w) = opened w" "next_fd (b_error m w) = next_fd w"
  "outbox (b_error m w) = outbox w" "logs (b_error m w) = logs w @ [LogError m]"
  by (simp_all add: b_error_def)

lemma b_verbose_sel [simp]:
  "opened (b_verbose m w) = opened w" "next_fd (b_verbose m w) = next_fd w"
  "outbox (b_verbose m w) = outbox w" "logs (b_verbose m w) = logs w @ [LogVerbose m]"
  by (simp_all add: b_verbose_def)

lemma only_logs_refl [simp]: "only_logs w w"
  by (simp add: only_logs_def)

lemma only_logs_b_error [simp]: "only_logs w (b_error m w)"
  by (simp add: only_logs_def b_error_def)

lemma only_logs_b_verbose [simp]: "only_logs w (b_verbose m w)"
  by (simp add: only_logs_def b_verbose_def)

lemma only_logs_trans: "only_logs w w1 \<Longrightarrow> only_logs w1 w2 \<Longrightarrow> only_logs w w2"
  by (simp add: only_logs_def)

lemma paramToString_only_logs: "paramToString env v w = (r, w') \<Longrightarrow> only_logs w w'"
  unfolding paramToString_def
  by (cases v) (auto split: option.splits sum.splits)

lemma formFile_only_logs:
  "formFile env wr key fn src srcErr m1 m2 w = (wr', w') \<Longrightarrow> only_logs w w'"
  unfolding formFile_def CreateFormFile_def CreatePart_def io_Copy_def
  by (auto split: option.splits)

lemma multipartField_effect:
  assumes "multipartField env key v (wr, dfr, w) = (wr', dfr', w')"
  shows "outbox w' = outbox w \<and> next_fd w \<le> next_fd w' \<and>
         set (opened w') = set (opened w) \<union> {next_fd w ..< next_fd w'} \<and>
         set dfr' = set dfr \<union> set (file_of v) \<union> {next_fd w ..< next_fd w'}"
proof (cases v)
  case (VOsFile f)
  then show ?thesis using assms
    by (auto simp: multipartField_def file_of_def only_logs_def split: prod.splits dest!: formFile_only_logs)
next
  case (VBytes bs)
  then show ?thesis using assms
    by (auto simp: multipartField_def file_of_def only_logs_def split: prod.splits dest!: formFile_only_logs)
next
  case (VInputFile i)
  then show ?thesis using assms
    by (auto simp: multipartField_def file_of_def only_logs_def WriteField_def CreatePart_def Let_def
        split: prod.splits option.splits sum.splits if_splits bool.splits
        dest!: formFile_only_logs paramToString_only_logs)
qed (use assms in \<open>auto simp: multipartField_def file_of_def only_logs_def WriteField_def CreatePart_def
        split: prod.splits option.splits bool.splits dest!: paramToString_only_logs\<close>)

lemma multipartFields_effect:
  "multipartFields env ps (wr, dfr, w) = (wr', dfr', w') \<Longrightarrow>
     outbox w' = outbox w \<and> next_fd w \<le> next_fd w' \<and>
     set (opened w') = set (opened w) \<union> {next_fd w ..< next_fd w'} \<and>
     set dfr' = set dfr \<union> set (param_files ps) \<union> {next_fd w ..< next_fd w'}"
proof (induction ps arbitrary: wr dfr w)
  case Nil
  then show ?case by (simp add: param_files_def)
next
  case (Cons a ps)
  obtain k v where a: "a = (k, v)" by (cases a)
  obtain wr1 dfr1 w1 where s: "multipartField env k v (wr, dfr, w) = (wr1, dfr1, w1)"
    by (metis prod.exhaust)
  from Cons.prems a s have r: "multipartFields env ps (wr1, dfr1, w1) = (wr', dfr', w')"
    by simp
  note h1 = multipartField_effect[OF s] and h2 = Cons.IH[OF r]
  have pf: "set (param_files (a # ps)) = set (file_of v) \<union> set (param_files ps)"
    by (simp add: param_files_def a)
  from h1 h2 have "{next_fd w ..< next_fd w'} = {next_fd w ..< next_fd w1} \<union> {next_fd w1 ..< next_fd w'}"
    by auto
  with h1 h2 pf show ?case by auto
qed

lemma run_deferred_effect:
  "set (opened (run_deferred ds w)) = set (opened w) - set ds \<and>
   next_fd (run_deferred ds w) = next_fd w \<and> outbox (run_deferred ds w) = outbox w \<and>
   logs (run_deferred ds w) = logs w"
  by (induction ds arbitrary: w) (auto simp: file_Close_def)

lemma exchange_effect:
  "exchange env url hs body w = (res, w') \<Longrightarrow>
     opened w' = opened w \<and> next_fd w' = next_fd w \<and>
     outbox w' = outbox w @ (if newRequestErr env url = None
        then [\<lparr>req_url = url, req_headers = hs, req_body = body\<rparr>] else [])"
  unfolding exchange_def
  by (auto simp: Let_def split: option.splits http_result.splits sum.splits)

lemma paramToString_fst: "fst (paramToString env v w) = (param_text env v, param_ok env v)"
  unfolding param_text_def param_ok_def paramToString_def
  by (cases v) (auto split: option.splits sum.splits)

lemma paramToString_cases:
  obtains w' where "paramToString env v w = ((param_text env v, param_ok env v), w')" "only_logs w w'"
  using paramToString_fst[of env v w] paramToString_only_logs[of env v w]
  by (metis prod.collapse)

lemma map_of_filter_key:
  "map_of (filter (\<lambda>kv. fst kv \<noteq> k) pv) k' = (if k' = k then None else map_of pv k')"
  by (induction pv) auto

lemma map_of_values_set: "map_of (values_set k vs pv) = (map_of pv)(k \<mapsto> vs)"
  by (rule ext) (simp add: values_set_def map_of_filter_key)

lemma set_keys_values_set: "set (map fst (values_set k vs pv)) = insert k (set (map fst pv))"
  by (auto simp: values_set_def)

lemma urlencodedFields_effect:
  "distinct (map fst ps) \<Longrightarrow> urlencodedFields env ps (pv, w) = (pv', w') \<Longrightarrow>
     only_logs w w' \<and>
     map_of pv' = (\<lambda>k. case sent_fields env ps k of Some vs \<Rightarrow> Some vs | None \<Rightarrow> map_of pv k)"
proof (induction ps arbitrary: pv w)
  case Nil
  then show ?case by (auto simp: sent_fields_def)
next
  case (Cons a ps)
  obtain k v where a: "a = (k, v)" by (cases a)
  obtain w1 where p: "paramToString env v w = ((param_text env v, param_ok env v), w1)"
    and l: "only_logs w w1" by (rule paramToString_cases)
  let ?pv1 = "if param_ok env v then values_set k [param_text env v] pv else pv"
  from Cons.prems a p have r: "urlencodedFields env ps (?pv1, w1) = (pv', w')" by simp
  from Cons.prems a have d: "distinct (map fst ps)" and nk: "map_of ps k = None"
    by (auto simp: map_of_eq_None_iff)
  note ih = Cons.IH[OF d r]
  have m: "map_of pv' = (\<lambda>k'. case sent_fields env (a # ps) k' of Some vs \<Rightarrow> Some vs | None \<Rightarrow> map_of pv k')"
  proof
    fix k'
    show "map_of pv' k' = (case sent_fields env (a # ps) k' of Some vs \<Rightarrow> Some vs | None \<Rightarrow> map_of pv k')"
      using ih a nk
      by (auto simp: sent_fields_def map_of_values_set split: option.splits if_splits)
  qed
  with ih l show ?case using only_logs_trans by blast
qed

lemma urlencodedFields_init:
  assumes "distinct (map fst ps)" "urlencodedFields env ps ([], w) = (pv', w')"
  shows "only_logs w w'" "map_of pv' = sent_fields env ps" "set (map fst pv') = dom (sent_fields env ps)"
proof -
  note h = urlencodedFields_effect[OF assms]
  show "only_logs w w'" using h by simp
  show m: "map_of pv' = sent_fields env ps"
    using h by (auto split: option.splits)
  show "set (map fst pv') = dom (sent_fields env ps)"
    using m dom_map_of_conv_image_fst[of pv'] by simp
qed

lemma dom_sent_fields:
  "distinct (map fst ps) \<Longrightarrow>
     dom (sent_fields env ps) = set (map fst (filter (\<lambda>kv. param_ok env (snd kv)) ps))"
proof (intro set_eqI iffI)
  fix k assume ds: "distinct (map fst ps)" and "k \<in> dom (sent_fields env ps)"
  then obtain v where "map_of ps k = Some v" "param_ok env v"
    by (auto simp: sent_fields_def dom_def split: option.splits if_splits)
  then have "(k, v) \<in> set ps" by (simp add: map_of_SomeD)
  with \<open>param_ok env v\<close> show "k \<in> set (map fst (filter (\<lambda>kv. param_ok env (snd kv)) ps))"
    by force
next
  fix k assume ds: "distinct (map fst ps)"
    and "k \<in> set (map fst (filter (\<lambda>kv. param_ok env (snd kv)) ps))"
  then obtain v where "(k, v) \<in> set ps" "param_ok env v" by auto
  with ds have "map_of ps k = Some v" by simp
  with \<open>param_ok env v\<close> show "k \<in> dom (sent_fields env ps)"
    by (simp add: sent_fields_def dom_def)
qed

lemma concat_map_singletons:
  "(\<And>k. k \<in> set ks \<Longrightarrow> g k = [f k]) \<Longrightarrow> concat (map g ks) = map f ks"
  by (induction ks) auto

lemma Encode_urlencodedFields:
  assumes d: "distinct (map fst ps)" and u: "urlencodedFields env ps ([], w) = (pv', w')"
  shows "Encode env pv' = urlencoded_body env ps"
proof -
  note h = urlencodedFields_init[OF d u]
  have dk: "distinct (map fst (filter (\<lambda>kv. param_ok env (snd kv)) ps))"
    using d by (simp add: distinct_map_filter)
  have "sort (remdups (map fst pv')) = sent_keys env ps"
    unfolding sent_keys_def
    by (rule sorted_distinct_set_unique)
       (use h(3) dom_sent_fields[OF d, of env] dk in \<open>auto\<close>)
  moreover have "\<And>k. k \<in> set (sent_keys env ps) \<Longrightarrow>
      values_get pv' k = [param_text env (the (map_of ps k))]"
    using h(2) d by (auto simp: sent_keys_def values_get_def sent_fields_def split: option.splits
        dest: eq_key_imp_eq_value)
  ultimately show ?thesis
    unfolding Encode_def urlencoded_body_def
    by (simp add: concat_map_singletons
          [where f = "\<lambda>k. queryEscape env k @ ''='' @ queryEscape env (param_text env (the (map_of ps k)))"])
qed

lemma formFile_boundary:
  "formFile env wr key fn src srcErr m1 m2 w = (wr', w') \<Longrightarrow> boundary wr' = boundary wr"
  unfolding formFile_def CreateFormFile_def CreatePart_def io_Copy_def
  by (auto split: option.splits)

lemma multipartField_boundary:
  assumes "multipartField env key v (wr, dfr, w) = (wr', dfr', w')"
  shows "boundary wr' = boundary wr"
proof (cases v)
  case (VInputFile i)
  then show ?thesis using assms
    by (auto simp: multipartField_def WriteField_def CreatePart_def Let_def
        split: prod.splits option.splits sum.splits if_splits bool.splits
        dest!: formFile_boundary)
qed (use assms in \<open>auto simp: multipartField_def WriteField_def CreatePart_def
        split: prod.splits option.splits bool.splits dest!: formFile_boundary\<close>)

lemma multipartFields_boundary:
  "multipartFields env ps (wr, dfr, w) = (wr', dfr', w') \<Longrightarrow> boundary wr' = boundary wr"
proof (induction ps arbitrary: wr dfr w)
  case Nil then show ?case by simp
next
  case (Cons a ps)
  obtain k v where a: "a = (k, v)" by (cases a)
  obtain wr1 dfr1 w1 where s: "multipartField env k v (wr, dfr, w) = (wr1, dfr1, w1)"
    by (metis prod.exhaust)
  from Cons.prems a s have r: "multipartFields env ps (wr1, dfr1, w1) = (wr', dfr', w')"
    by simp
  show ?case using Cons.IH[OF r] multipartField_boundary[OF s] by simp
qed

lemma requestMultipartFormData_outbox:
  assumes "requestMultipartFormData env url bnd ps w = (res, w')"
  shows "\<exists>body. outbox w' = outbox w @
           (if newRequestErr env url = None
            then [\<lparr>req_url = url,
                   req_headers = [(''Content-Type'', FormDataContentType (NewWriter bnd))],
                   req_body = body\<rparr>]
            else [])"
proof -
  obtain wr dfr w1 where f: "multipartFields env ps (NewWriter bnd, [], w) = (wr, dfr, w1)"
    by (metis prod.exhaust)
  let ?wr1 = "snd (Writer_Close wr)"
  obtain r w3 where e: "exchange env url [(''Content-Type'', FormDataContentType ?wr1)]
       (wbuf ?wr1) w1 = (r, w3)"
    by (metis prod.exhaust)
  from assms f e have w': "w' = run_deferred dfr w3"
    by (simp add: requestMultipartFormData_def Writer_Close_def)
  have b: "FormDataContentType ?wr1 = FormDataContentType (NewWriter bnd)"
    using multipartFields_boundary[OF f]
    by (simp add: FormDataContentType_def Writer_Close_def NewWriter_def)
  show ?thesis
    using multipartFields_effect[OF f] exchange_effect[OF e] run_deferred_effect[of dfr w3] w' b
    by auto
qed

lemma requestURLEncodedFormData_outbox:
  assumes "requestURLEncodedFormData env url ps w = (res, w')"
  shows "\<exists>body. outbox w' = outbox w @
           (if newRequestErr env url = None
            then [\<lparr>req_url = url,
                   req_headers = [(''Content-Type'', ''application/x-www-form-urlencoded''),
                                  (''Content-Length'', FormatInt (int (length body)))],
                   req_body = body\<rparr>]
            else [])"
proof -
  obtain pv w1 where u: "urlencodedFields env ps ([], w) = (pv, w1)" by (metis prod.exhaust)
  from assms u have e: "exchange env url
      [(''Content-Type'', ''application/x-www-form-urlencoded''),
       (''Content-Length'', FormatInt (int (length (Encode env pv))))] (Encode env pv) w1 = (res, w')"
    by (simp add: requestURLEncodedFormData_def Let_def)
  have "outbox w1 = outbox w" using urlencodedFields_outbox[of env ps "[]" w] u by simp
  with exchange_effect[OF e] show ?thesis by auto
qed

text \<open>
  Claim C1. The choice of the transport is all or nothing. \<^verbatim>\<open>checkIfFileParamExists\<close> holds
  exactly when some value of the parameter set is an \<^verbatim>\<open>*os.File\<close>, a \<^verbatim>\<open>[]byte\<close>, or an
  \<^verbatim>\<open>InputFile\<close> with local bytes or a local file path. A call of \<^verbatim>\<open>request\<close> hands at most
  one request to the HTTP client (exactly one when the request can be built), and that
  request is urlencoded when no value is such an attachment and multipart form data
  when at least one is; an \<^verbatim>\<open>InputFile\<close> with only a URL or a file id is no attachment.
\<close>
theorem request_transport_all_or_nothing:
  "(checkIfFileParamExists ps \<longleftrightarrow> (\<exists>kv \<in> set ps. is_attachment (snd kv))) \<and>
   outbox (snd (request env b bnd method ps w)) =
     outbox w @ sent_by w (snd (request env b bnd method ps w)) \<and>
   (newRequestErr env (request_url env b method) = None \<longrightarrow>
      length (sent_by w (snd (request env b bnd method ps w))) = 1) \<and>
   (\<forall>r \<in> set (sent_by w (snd (request env b bnd method ps w))).
      content_type r =
        Some (if \<exists>kv \<in> set ps. is_attachment (snd kv)
              then FormDataContentType (NewWriter bnd)
              else ''application/x-www-form-urlencoded''))"
proof -
  let ?url = "request_url env b method"
  let ?w0 = "b_verbose ''sending request to api url: %s, params: %#v'' w"
  let ?att = "\<exists>kv \<in> set ps. is_attachment (snd kv)"
  let ?d = "if checkIfFileParamExists ps
            then requestMultipartFormData env ?url bnd ps ?w0
            else requestURLEncodedFormData env ?url ps ?w0"
  have c: "checkIfFileParamExists ps \<longleftrightarrow> ?att" by (rule checkIfFileParamExists_iff)
  have o: "outbox (snd (request env b bnd method ps w)) = outbox (snd ?d)"
    by (auto simp: request_def request_url_def Let_def split: prod.splits option.splits)
  obtain res w1 where d: "?d = (res, w1)" by (metis prod.exhaust)
  have "\<exists>hs body. outbox w1 = outbox w @
        (if newRequestErr env ?url = None
         then [\<lparr>req_url = ?url,
                req_headers = (''Content-Type'', if ?att then FormDataContentType (NewWriter bnd)
                                  else ''application/x-www-form-urlencoded'') # hs,
                req_body = body\<rparr>]
         else [])"
  proof (cases "checkIfFileParamExists ps")
    case True
    with d have "requestMultipartFormData env ?url bnd ps ?w0 = (res, w1)" by simp
    from requestMultipartFormData_outbox[OF this] True c show ?thesis by auto
  next
    case False
    with d have "requestURLEncodedFormData env ?url ps ?w0 = (res, w1)" by simp
    from requestURLEncodedFormData_outbox[OF this] False c show ?thesis by auto
  qed
  then obtain hs body where "outbox w1 = outbox w @
        (if newRequestErr env ?url = None
         then [\<lparr>req_url = ?url,
                req_headers = (''Content-Type'', if ?att then FormDataContentType (NewWriter bnd)
                                  else ''application/x-www-form-urlencoded'') # hs,
                req_body = body\<rparr>]
         else [])" by blast
  with o d c show ?thesis
    by (auto simp: sent_by_def content_type_def)
qed

lemma multipartField_next_fd:
  assumes "multipartField env key v (wr, dfr, w) = (wr', dfr', w')"
  shows "next_fd w' = next_fd w + opens env v"
proof (cases v)
  case (VInputFile i)
  then show ?thesis using assms
    by (auto simp: multipartField_def opens_def only_logs_def WriteField_def CreatePart_def Let_def
        split: prod.splits option.splits sum.splits if_splits bool.splits
        dest!: formFile_only_logs paramToString_only_logs)
qed (use assms in \<open>auto simp: multipartField_def opens_def only_logs_def WriteField_def CreatePart_def
        split: prod.splits option.splits bool.splits dest!: paramToString_only_logs formFile_only_logs\<close>)

lemma multipartFields_next_fd:
  "multipartFields env ps (wr, dfr, w) = (wr', dfr', w') \<Longrightarrow>
     next_fd w' = next_fd w + files_opened env ps"
proof (induction ps arbitrary: wr dfr w)
  case Nil then show ?case by (simp add: files_opened_def)
next
  case (Cons a ps)
  obtain k v where a: "a = (k, v)" by (cases a)
  obtain wr1 dfr1 w1 where s: "multipartField env k v (wr, dfr, w) = (wr1, dfr1, w1)"
    by (metis prod.exhaust)
  from Cons.prems a s have r: "multipartFields env ps (wr1, dfr1, w1) = (wr', dfr', w')"
    by simp
  show ?case using Cons.IH[OF r] multipartField_next_fd[OF s] a by (simp add: files_opened_def)
qed

text \<open>
  Claim C9. When \<^verbatim>\<open>requestMultipartFormData\<close> returns, whatever it returns, every
  descriptor of an \<^verbatim>\<open>*os.File\<close> among the parameters and every descriptor that
  \<^verbatim>\<open>os.Open\<close> handed out during the call (one for each \<^verbatim>\<open>InputFile\<close> whose file path could
  be opened) is closed; the other descriptors are as they were.
\<close>
theorem multipart_handles_closed:
  "next_fd (snd (requestMultipartFormData env apiURL bnd ps w)) = next_fd w + files_opened env ps \<and>
   set (opened (snd (requestMultipartFormData env apiURL bnd ps w))) =
     set (opened w) - set (param_files ps) - {next_fd w ..< next_fd w + files_opened env ps}"
proof -
  obtain wr dfr w1 where f: "multipartFields env ps (NewWriter bnd, [], w) = (wr, dfr, w1)"
    by (metis prod.exhaust)
  obtain r w3 where e: "exchange env apiURL [(''Content-Type'', FormDataContentType (snd (Writer_Close wr)))]
       (wbuf (snd (Writer_Close wr))) w1 = (r, w3)"
    by (metis prod.exhaust)
  from f e have w': "snd (requestMultipartFormData env apiURL bnd ps w) = run_deferred dfr w3"
    by (simp add: requestMultipartFormData_def Writer_Close_def)
  note h = multipartFields_effect[OF f] exchange_effect[OF e] run_deferred_effect[of dfr w3]
    multipartFields_next_fd[OF f]
  show ?thesis unfolding w' using h by auto
qed

text \<open>
  An upload with an \<^verbatim>\<open>*os.File\<close> on descriptor 3 and a file path that opens, while the
  HTTP exchange fails: descriptor 5 is handed out, and 3 and 5 are closed on return.
\<close>
theorem multipart_handles_closed_witness:
  "files_opened (sample_env (DoError ''boom'')) sample_upload = 1 \<and>
   param_files sample_upload = [3] \<and>
   next_fd (snd (requestMultipartFormData (sample_env (DoError ''boom'')) ''u'' ''xyz''
                   sample_upload sample_world)) = 6 \<and>
   set (opened (snd (requestMultipartFormData (sample_env (DoError ''boom'')) ''u'' ''xyz''
                   sample_upload sample_world))) = {4}"
proof -
  let ?w' = "snd (requestMultipartFormData (sample_env (DoError ''boom'')) ''u'' ''xyz''
                   sample_upload sample_world)"
  have a: "files_opened (sample_env (DoError ''boom'')) sample_upload = 1"
    by (simp add: files_opened_def opens_def sample_upload_def sample_env_def no_file_def)
  have b: "param_files sample_upload = [3]"
    by (simp add: param_files_def file_of_def sample_upload_def sample_doc_def)
  have c: "next_fd sample_world = 5" "set (opened sample_world) = {3, 4}"
    by (simp_all add: sample_world_def)
  have t: "next_fd ?w' = 5 + 1 \<and> set (opened ?w') = {3, 4} - set [3] - {5 ..< 5 + 1}"
    using multipart_handles_closed[of "sample_env (DoError ''boom'')" "''u''" "''xyz''" sample_upload sample_world]
    by (simp only: a b c)
  have n: "next_fd ?w' = 6" using t by (simp only: conjunct1)
  have "{3, 4} - set [3] - {5 ..< 5 + 1} = {4::nat}" by auto
  with t have o: "set (opened ?w') = {4}" by (simp only:)
  from a b n o show ?thesis by (simp only:) 
qed

text \<open>A message without attachment goes urlencoded, an upload goes multipart.\<close>
theorem request_transport_all_or_nothing_witness:
  "map content_type (sent_by sample_world
      (snd (request (sample_env (DoResponse (Inr ''{}''))) sample_bot ''xyz'' ''sendMessage''
              sample_message sample_world))) = [Some ''application/x-www-form-urlencoded''] \<and>
   map content_type (sent_by sample_world
      (snd (request (sample_env (DoResponse (Inr ''{}''))) sample_bot ''xyz'' ''sendDocument''
              sample_upload sample_world))) = [Some ''multipart/form-data; boundary=xyz'']"
proof -
  let ?E = "sample_env (DoResponse (Inr ''{}''))"
  let ?S1 = "sent_by sample_world
      (snd (request ?E sample_bot ''xyz'' ''sendMessage'' sample_message sample_world))"
  let ?S2 = "sent_by sample_world
      (snd (request ?E sample_bot ''xyz'' ''sendDocument'' sample_upload sample_world))"
  have n: "\<And>u. newRequestErr ?E u = None" by (simp add: sample_env_def)
  have m: "\<not> (\<exists>kv \<in> set sample_message. is_attachment (snd kv))"
    by (simp add: sample_message_def is_attachment_def no_file_def)
  have u: "\<exists>kv \<in> set sample_upload. is_attachment (snd kv)"
    by (simp add: sample_upload_def is_attachment_def no_file_def)
  have ct: "FormDataContentType (NewWriter ''xyz'') = ''multipart/form-data; boundary=xyz''"
    by (simp add: FormDataContentType_def NewWriter_def tspecials_def dquote_def)
  have one: "\<And>xs c. length xs = 1 \<Longrightarrow> \<forall>r \<in> set xs. content_type r = c \<Longrightarrow> map content_type xs = [c]"
    by (case_tac xs) auto
  note T1 = request_transport_all_or_nothing
    [of sample_message ?E sample_bot "''xyz''" "''sendMessage''" sample_world]
  note T2 = request_transport_all_or_nothing
    [of sample_upload ?E sample_bot "''xyz''" "''sendDocument''" sample_world]
  have L1: "length ?S1 = 1"
    by (rule mp[OF T1[THEN conjunct2, THEN conjunct2, THEN conjunct1] n])
  have L2: "length ?S2 = 1"
    by (rule mp[OF T2[THEN conjunct2, THEN conjunct2, THEN conjunct1] n])
  have A1: "\<forall>r \<in> set ?S1. content_type r = Some ''application/x-www-form-urlencoded''"
    using T1[THEN conjunct2, THEN conjunct2, THEN conjunct2] by (simp only: m if_False)
  have A2: "\<forall>r \<in> set ?S2. content_type r = Some ''multipart/form-data; boundary=xyz''"
    using T2[THEN conjunct2, THEN conjunct2, THEN conjunct2] by (simp only: u if_True ct)
  from one[OF L1 A1] one[OF L2 A2] show ?thesis by (rule conjI)
qed

lemma request_sample_answer:
  "fst (request (sample_answer bs) sample_bot ''xyz'' ''editMessageText'' sample_message sample_world)
     = (bs, None)"
  unfolding sample_answer_def
  by (simp add: request_def Let_def requestURLEncodedFormData_def exchange_def sample_env_def
      sample_message_def no_file_def is_attachment_def split: prod.splits)

text \<open>
  Claim C2. Once \<^verbatim>\<open>request\<close> has returned a body, \<^verbatim>\<open>requestMessageOrBool\<close> first decodes it
  as an envelope with a \<^verbatim>\<open>Message\<close> result and, if that succeeds, returns the record
  variant; otherwise it decodes it as an envelope with a boolean result and, if that
  succeeds, returns the boolean variant; if neither succeeds it returns a failure envelope
  whose description names both shapes and carries the body.
\<close>
theorem requestMessageOrBool_two_attempts:
  assumes "fst (request env b bnd method ps w) = (body, None)"
  shows "fst (requestMessageOrBool env unmarshalMessage unmarshalBool b bnd method ps w) =
     (case unmarshalMessage body of
        Inr r \<Rightarrow>
          \<lparr>Ok_mb = True, Description_mb = Description r,
           ResultMessage = Result r, ResultBool = None\<rparr>
      | Inl e \<Rightarrow>
          (case unmarshalBool body of
             Inr r \<Rightarrow>
               \<lparr>Ok_mb = True, Description_mb = Description r,
                ResultMessage = None, ResultBool = Result r\<rparr>
           | Inl e' \<Rightarrow>
               \<lparr>Ok_mb = False,
                Description_mb =
                  Some (''json parse error: not in Message nor bool type ('' @ body @ '')''),
                ResultMessage = None, ResultBool = None\<rparr>))"
  using assms
  by (auto simp: requestMessageOrBool_def Let_def split: prod.splits option.splits sum.splits)

text \<open>
  The three bodies of the specification: a message, \<open>true\<close>, and a string as the result.
\<close>
theorem requestMessageOrBool_two_attempts_witness:
  "fst (requestMessageOrBool (sample_answer body_message) sample_unmarshalMessage
          sample_unmarshalBool sample_bot ''xyz'' ''editMessageText'' sample_message sample_world)
     = \<lparr>Ok_mb = True, Description_mb = None, ResultMessage = Some 5, ResultBool = None\<rparr> \<and>
   fst (requestMessageOrBool (sample_answer body_true) sample_unmarshalMessage
          sample_unmarshalBool sample_bot ''xyz'' ''editMessageText'' sample_message sample_world)
     = \<lparr>Ok_mb = True, Description_mb = None, ResultMessage = None, ResultBool = Some True\<rparr> \<and>
   fst (requestMessageOrBool (sample_answer body_string) sample_unmarshalMessage
          sample_unmarshalBool sample_bot ''xyz'' ''editMessageText'' sample_message sample_world)
     = \<lparr>Ok_mb = False,
        Description_mb =
          Some (''json parse error: not in Message nor bool type ('' @ body_string @ '')''),
        ResultMessage = None, ResultBool = None\<rparr>"
proof -
  note T = requestMessageOrBool_two_attempts
    [OF request_sample_answer, of _ sample_unmarshalMessage sample_unmarshalBool]
  have m: "sample_unmarshalMessage body_message =
      Inr \<lparr>Ok = True, Description = None, Result = Some 5, ErrorCode = None\<rparr>"
    by (simp add: sample_unmarshalMessage_def)
  have t: "sample_unmarshalMessage body_true =
      Inl ''json: cannot unmarshal into Go struct field APIResponse.result''"
    "sample_unmarshalBool body_true =
      Inr \<lparr>Ok = True, Description = None, Result = Some True, ErrorCode = None\<rparr>"
    by (simp_all add: sample_unmarshalMessage_def sample_unmarshalBool_def
        body_true_def body_message_def body_failure_def)
  have s: "sample_unmarshalMessage body_string =
      Inl ''json: cannot unmarshal into Go struct field APIResponse.result''"
    "sample_unmarshalBool body_string =
      Inl ''json: cannot unmarshal into Go struct field APIResponse.result of type bool''"
    by (simp_all add: sample_unmarshalMessage_def sample_unmarshalBool_def
        body_true_def body_message_def body_failure_def body_string_def)
  have 1: "fst (requestMessageOrBool (sample_answer body_message) sample_unmarshalMessage
          sample_unmarshalBool sample_bot ''xyz'' ''editMessageText'' sample_message sample_world)
     = \<lparr>Ok_mb = True, Description_mb = None, ResultMessage = Some 5, ResultBool = None\<rparr>"
    using T[of body_message] by (simp add: m)
  have 2: "fst (requestMessageOrBool (sample_answer body_true) sample_unmarshalMessage
          sample_unmarshalBool sample_bot ''xyz'' ''editMessageText'' sample_message sample_world)
     = \<lparr>Ok_mb = True, Description_mb = None, ResultMessage = None, ResultBool = Some True\<rparr>"
    using T[of body_true] by (simp add: t)
  have 3: "fst (requestMessageOrBool (sample_answer body_string) sample_unmarshalMessage
          sample_unmarshalBool sample_bot ''xyz'' ''editMessageText'' sample_message sample_world)
     = \<lparr>Ok_mb = False,
        Description_mb =
          Some (''json parse error: not in Message nor bool type ('' @ body_string @ '')''),
        ResultMessage = None, ResultBool = None\<rparr>"
    using T[of body_string] by (simp add: s)
  from 1 2 3 show ?thesis by (intro conjI)
qed

text \<open>
  Claim C10. Whenever the body decodes as an envelope with a \<^verbatim>\<open>Message\<close> result slot,
  \<^verbatim>\<open>requestMessageOrBool\<close> returns an envelope whose \<^verbatim>\<open>Ok\<close> is true, whatever the
  \<open>ok\<close> of the body; the description and the message slot are those of the decoded
  envelope and the boolean slot is empty, so both slots are empty when the body has
  no result.
\<close>
theorem requestMessageOrBool_ok_forced:
  assumes "fst (request env b bnd method ps w) = (body, None)"
    and "unmarshalMessage body = Inr r"
  shows "fst (requestMessageOrBool env unmarshalMessage unmarshalBool b bnd method ps w) =
     \<lparr>Ok_mb = True, Description_mb = Description r,
      ResultMessage = Result r, ResultBool = None\<rparr>"
  using assms
  by (auto simp: requestMessageOrBool_def Let_def split: prod.splits option.splits sum.splits)

text \<open>A failure body of the platform: \<open>ok\<close> is false in the body and true in the result.\<close>
theorem requestMessageOrBool_ok_forced_witness:
  "sample_unmarshalMessage body_failure =
     Inr \<lparr>Ok = False, Description = Some ''Bad Request'', Result = None, ErrorCode = None\<rparr> \<and>
   fst (requestMessageOrBool (sample_answer body_failure) sample_unmarshalMessage
          sample_unmarshalBool sample_bot ''xyz'' ''editMessageText'' sample_message sample_world)
     = \<lparr>Ok_mb = True, Description_mb = Some ''Bad Request'',
        ResultMessage = None, ResultBool = None\<rparr>"
proof -
  have f: "sample_unmarshalMessage body_failure =
     Inr \<lparr>Ok = False, Description = Some ''Bad Request'', Result = None, ErrorCode = None\<rparr>"
    by (simp add: sample_unmarshalMessage_def body_failure_def body_message_def)
  from requestMessageOrBool_ok_forced[where unmarshalMessage = sample_unmarshalMessage
      and unmarshalBool = sample_unmarshalBool, OF request_sample_answer[of body_failure] f] f
  show ?thesis by simp
qed

text \<open>
  Claim C5 does not hold of \<^verbatim>\<open>handleWebhook\<close>. A body that is read and is not JSON only
  writes a diagnostic: the update handler is not called. The handler is called with the
  error when the body cannot be read.
\<close>
theorem handleWebhook_malformed_json:
  \<open>fst (handleWebhook sample_unmarshalUpdate 0 (Inr ''{"update_id":'') sample_world) = [] \<and>
   logs (snd (handleWebhook sample_unmarshalUpdate 0 (Inr ''{"update_id":'') sample_world)) =
     [LogVerbose ''received webhook request: %+v'', LogError ''error while parsing json (%s)''] \<and>
   fst (handleWebhook sample_unmarshalUpdate 0 (Inl ''unexpected EOF'') sample_world) =
     [(0, Some ''unexpected EOF'')] \<and>
   fst (handleWebhook sample_unmarshalUpdate 0 (Inr ''{"update_id":7}'') sample_world) =
     [(7, None)]\<close>
  by (simp add: handleWebhook_def sample_unmarshalUpdate_def sample_world_def Let_def)

lemma param_ok_iff: "param_ok env v \<longleftrightarrow> \<not> encoder_fails env v"
  unfolding param_ok_def paramToString_def encoder_fails_def
  by (cases v) (auto split: option.splits sum.splits)

lemma exchange_fst:
  "fst (exchange env url hs body w) = fst (exchange env url hs body w0)"
  unfolding exchange_def
  by (auto simp: Let_def split: option.splits http_result.splits sum.splits)

lemma requestURLEncodedFormData_explicit:
  assumes "is_params ps"
  shows "sent_by w (snd (requestURLEncodedFormData env url ps w)) =
           (if newRequestErr env url = None then [urlencoded_request env url ps] else [])"
    and "fst (requestURLEncodedFormData env url ps w) =
           fst (exchange env url (req_headers (urlencoded_request env url ps))
                  (urlencoded_body env ps) w)"
proof -
  from assms have d: "distinct (map fst ps)" by (simp add: is_params_def)
  obtain pv w1 where u: "urlencodedFields env ps ([], w) = (pv, w1)" by (metis prod.exhaust)
  have b: "Encode env pv = urlencoded_body env ps" by (rule Encode_urlencodedFields[OF d u])
  have l: "only_logs w w1" by (rule urlencodedFields_init(1)[OF d u])
  let ?hs = "req_headers (urlencoded_request env url ps)"
  have r: "requestURLEncodedFormData env url ps w = exchange env url ?hs (urlencoded_body env ps) w1"
    using u b by (simp add: requestURLEncodedFormData_def Let_def urlencoded_request_def)
  obtain res w' where e: "exchange env url ?hs (urlencoded_body env ps) w1 = (res, w')"
    by (metis prod.exhaust)
  from exchange_effect[OF e] l r e
  show "sent_by w (snd (requestURLEncodedFormData env url ps w)) =
           (if newRequestErr env url = None then [urlencoded_request env url ps] else [])"
    by (auto simp: sent_by_def only_logs_def urlencoded_request_def)
  show "fst (requestURLEncodedFormData env url ps w) =
           fst (exchange env url ?hs (urlencoded_body env ps) w)"
    unfolding r by (rule exchange_fst)
qed

lemma set_sent_keys:
  "set (sent_keys env ps) = {k. \<exists>v. (k, v) \<in> set ps \<and> \<not> encoder_fails env v}"
  by (force simp: sent_keys_def param_ok_iff)

lemma urlencoded_body_order:
  assumes "is_params ps" "is_params qs" "set ps = set qs"
  shows "urlencoded_body env ps = urlencoded_body env qs"
proof -
  from assms have d: "distinct (map fst ps)" "distinct (map fst qs)"
    by (simp_all add: is_params_def)
  have m: "map_of ps = map_of qs" using d assms(3) by (simp add: map_of_inject_set)
  have "sent_keys env ps = sent_keys env qs"
    unfolding sent_keys_def
    by (rule sorted_distinct_set_unique)
       (use d assms(3) in \<open>auto simp: distinct_map_filter\<close>)
  with m show ?thesis by (simp add: urlencoded_body_def)
qed

text \<open>
  Claim C4. A value on which \<^verbatim>\<open>paramToString\<close> fails does not stop
  \<^verbatim>\<open>requestURLEncodedFormData\<close>: the request is built and sent as for any other
  parameter set, and its body holds, in the order of the keys, exactly the fields whose
  value encodes; the fields whose value fails are left out.
\<close>
theorem urlencoded_failed_fields_omitted:
  assumes "is_params ps"
  shows "(snd (fst (paramToString env v w)) \<longleftrightarrow> \<not> encoder_fails env v) \<and>
         set (sent_keys env ps) = {k. \<exists>v. (k, v) \<in> set ps \<and> \<not> encoder_fails env v} \<and>
         sent_by w (snd (requestURLEncodedFormData env url ps w)) =
           (if newRequestErr env url = None then [urlencoded_request env url ps] else []) \<and>
         fst (requestURLEncodedFormData env url ps w) =
           fst (exchange env url (req_headers (urlencoded_request env url ps))
                  (urlencoded_body env ps) w)"
  using requestURLEncodedFormData_explicit[OF assms, where w = w and env = env and url = url]
    set_sent_keys[of env ps] param_ok_iff[of env v] paramToString_fst[of env v w]
  by simp

text \<open>
  Claim C8, as amended. The urlencoded body is determined by the parameter set: two
  calls of \<^verbatim>\<open>requestURLEncodedFormData\<close> that range over the same map in different orders
  send the same request.
\<close>
theorem urlencoded_request_deterministic:
  assumes "is_params ps" "is_params qs" "set ps = set qs"
  shows "sent_by w (snd (requestURLEncodedFormData env url ps w)) =
         sent_by w' (snd (requestURLEncodedFormData env url qs w'))"
  using requestURLEncodedFormData_explicit(1)[OF assms(1), where w = w and env = env and url = url]
    requestURLEncodedFormData_explicit(1)[OF assms(2), where w = w' and env = env and url = url]
    urlencoded_body_order[OF assms, where env = env]
  by (simp add: urlencoded_request_def)

lemma sample_message_body:
  "urlencoded_body (sample_env net) sample_message = ''chat_id=42&text=hi+there''"
  by code_simp

lemma sample_message_rev_body:
  "urlencoded_body (sample_env net) (rev sample_message) = ''chat_id=42&text=hi+there''"
  by code_simp

lemma sample_message_params: "is_params sample_message" "is_params (rev sample_message)"
  by (simp_all add: is_params_def sample_message_def)

text \<open>
  Two of the four sample fields fail to encode (a value that \<^verbatim>\<open>json.Marshal\<close> rejects and an
  empty \<^verbatim>\<open>InputFile\<close>); the request is sent with the other two.
\<close>
theorem urlencoded_failed_fields_omitted_witness:
  "is_params sample_message \<and>
   encoder_fails (sample_env (DoError ''connection refused'')) (VOther None) \<and>
   encoder_fails (sample_env (DoError ''connection refused'')) (VInputFile no_file) \<and>
   sent_by sample_world
     (snd (requestURLEncodedFormData (sample_env (DoError ''connection refused'')) ''u'' sample_message sample_world)) =
     [\<lparr>req_url = ''u'',
       req_headers = [(''Content-Type'', ''application/x-www-form-urlencoded''),
                      (''Content-Length'', ''24'')],
       req_body = ''chat_id=42&text=hi+there''\<rparr>]"
proof -
  have n: "newRequestErr (sample_env (DoError ''connection refused'')) ''u'' = None" by (simp add: sample_env_def)
  have f: "encoder_fails (sample_env (DoError ''connection refused'')) (VOther None)"
    "encoder_fails (sample_env (DoError ''connection refused'')) (VInputFile no_file)"
    by (simp_all add: encoder_fails_def sample_env_def sample_marshal_def no_file_def)
  have l: "FormatInt (int (length ''chat_id=42&text=hi+there'')) = ''24''" by code_simp
  have r: "urlencoded_request (sample_env (DoError ''connection refused'')) ''u'' sample_message =
     \<lparr>req_url = ''u'',
       req_headers = [(''Content-Type'', ''application/x-www-form-urlencoded''),
                      (''Content-Length'', ''24'')],
       req_body = ''chat_id=42&text=hi+there''\<rparr>"
    unfolding urlencoded_request_def sample_message_body l ..
  have "sent_by sample_world
     (snd (requestURLEncodedFormData (sample_env (DoError ''connection refused'')) ''u'' sample_message sample_world)) =
      [urlencoded_request (sample_env (DoError ''connection refused'')) ''u'' sample_message]"
    using urlencoded_failed_fields_omitted[OF sample_message_params(1),
        where env = "sample_env (DoError ''connection refused'')" and url = "''u''" and w = sample_world,
        THEN conjunct2, THEN conjunct2, THEN conjunct1]
    unfolding n by (simp only: simp_thms if_True)
  with r f sample_message_params(1) show ?thesis by (simp only:)
qed

text \<open>The sample message, ranged over in the opposite order, is sent as the same request.\<close>
theorem urlencoded_request_deterministic_witness:
  "is_params sample_message \<and> is_params (rev sample_message) \<and>
   set sample_message = set (rev sample_message) \<and>
   sent_by sample_world
     (snd (requestURLEncodedFormData (sample_env (DoError ''connection refused'')) ''u'' sample_message sample_world)) =
   sent_by sample_world
     (snd (requestURLEncodedFormData (sample_env (DoError ''connection refused'')) ''u'' (rev sample_message) sample_world))"
proof -
  have s: "set sample_message = set (rev sample_message)" by simp
  from urlencoded_request_deterministic[OF sample_message_params s,
      where env = "sample_env (DoError ''connection refused'')" and url = "''u''" and w = sample_world and w' = sample_world]
    sample_message_params s
  show ?thesis by (simp only:)
qed

text \<open>
  Claim C8 does not hold of the multipart path. The same parameter set, ranged over in
  two orders, gives two bodies; so do two boundaries.
\<close>
theorem multipart_body_not_deterministic:
  "is_params sample_photo \<and> is_params (rev sample_photo) \<and>
   set sample_photo = set (rev sample_photo) \<and>
   map req_body (outbox (snd (requestMultipartFormData (sample_env (DoResponse (Inr ''{}''))) ''u'' ''xyz''
                                sample_photo sample_world))) \<noteq>
   map req_body (outbox (snd (requestMultipartFormData (sample_env (DoResponse (Inr ''{}''))) ''u'' ''xyz''
                                (rev sample_photo) sample_world))) \<and>
   map req_body (outbox (snd (requestMultipartFormData (sample_env (DoResponse (Inr ''{}''))) ''u'' ''xyz''
                                sample_photo sample_world))) \<noteq>
   map req_body (outbox (snd (requestMultipartFormData (sample_env (DoResponse (Inr ''{}''))) ''u'' ''abc''
                                sample_photo sample_world)))"
proof -
  have p: "is_params sample_photo" "is_params (rev sample_photo)"
    by (simp_all add: is_params_def sample_photo_def)
  have s: "set sample_photo = set (rev sample_photo)" by simp
  have 1: "map req_body (outbox (snd (requestMultipartFormData (sample_env (DoResponse (Inr ''{}''))) ''u'' ''xyz''
                                sample_photo sample_world))) \<noteq>
   map req_body (outbox (snd (requestMultipartFormData (sample_env (DoResponse (Inr ''{}''))) ''u'' ''xyz''
                                (rev sample_photo) sample_world)))"
    by code_simp
  have 2: "map req_body (outbox (snd (requestMultipartFormData (sample_env (DoResponse (Inr ''{}''))) ''u'' ''xyz''
                                sample_photo sample_world))) \<noteq>
   map req_body (outbox (snd (requestMultipartFormData (sample_env (DoResponse (Inr ''{}''))) ''u'' ''abc''
                                sample_photo sample_world)))"
    by code_simp
  from p s 1 2 show ?thesis by (intro conjI)
qed

lemma Split_nonempty: "Split sep xs \<noteq> []"
  by (induction xs) (auto split: list.splits)

lemma Split_hd: "hd (Split sep xs) = takeWhile (\<lambda>c. c \<noteq> sep) xs"
  by (induction xs) (auto split: list.splits simp: Split_nonempty)

lemma Split_no_sep: "sep \<notin> set xs \<Longrightarrow> Split sep xs = [xs]"
  by (induction xs) (auto split: list.splits)

lemma Split_append: "sep \<notin> set t \<Longrightarrow> Split sep (t @ sep # u) = t # Split sep u"
  by (induction t) (auto split: list.splits simp: Split_nonempty)

lemma nth_0_hd: "xs \<noteq> [] \<Longrightarrow> xs ! 0 = hd xs"
  by (cases xs) auto

text \<open>
  Claim C6, as amended. \<^verbatim>\<open>getExtension\<close> returns the subtype of the detected content type:
  the text after its first \<open>/\<close>, up to the next \<open>/\<close> or \<open>;\<close>. It returns the empty string
  when the detected type has no \<open>/\<close>.
\<close>
theorem getExtension_subtype:
  "(CHR ''/'' \<notin> set (DetectContentType env bs) \<longrightarrow> getExtension env bs = []) \<and>
   (\<forall>t u. DetectContentType env bs = t @ ''/'' @ u \<and> CHR ''/'' \<notin> set t \<longrightarrow>
      getExtension env bs = takeWhile not_semicolon (takeWhile not_slash u))"
proof (intro conjI allI impI)
  assume "CHR ''/'' \<notin> set (DetectContentType env bs)"
  then show "getExtension env bs = []"
    by (simp add: getExtension_def Split_no_sep)
next
  fix t u
  assume a: "DetectContentType env bs = t @ ''/'' @ u \<and> CHR ''/'' \<notin> set t"
  then have s: "Split (CHR ''/'') (DetectContentType env bs) = t # Split (CHR ''/'') u"
    by (simp add: Split_append)
  obtain x xs where x: "Split (CHR ''/'') u = x # xs"
    using Split_nonempty[of "CHR ''/''" u] by (cases "Split (CHR ''/'') u") auto
  have hx: "x = takeWhile not_slash u"
    using Split_hd[of "CHR ''/''" u] x by (simp add: not_slash_def[abs_def])
  obtain y ys where y: "Split (CHR '';'') x = y # ys"
    using Split_nonempty[of "CHR '';''" x] by (cases "Split (CHR '';'') x") auto
  have hy: "y = takeWhile not_semicolon x"
    using Split_hd[of "CHR '';''" x] y by (simp add: not_semicolon_def[abs_def])
  show "getExtension env bs = takeWhile not_semicolon (takeWhile not_slash u)"
    using s x y hx hy by (simp add: getExtension_def Let_def)
qed

text \<open>
  PNG and JPEG signatures give \<open>png\<close> and \<open>jpeg\<close>.
\<close>
theorem getExtension_subtype_witness:
  "getExtension (sample_env (DoError ''connection refused'')) sample_png = ''png'' \<and>
   getExtension (sample_env (DoError ''connection refused'')) (jpeg_magic @ ''JFIF'') = ''jpeg''"
proof -
  let ?E = "sample_env (DoError ''connection refused'')"
  have p: "DetectContentType ?E sample_png = ''image'' @ ''/'' @ ''png'' \<and> CHR ''/'' \<notin> set ''image''"
    by (simp add: sample_env_def sample_sniff_def sample_png_def png_magic_def)
  have j: "DetectContentType ?E (jpeg_magic @ ''JFIF'') = ''image'' @ ''/'' @ ''jpeg'' \<and> CHR ''/'' \<notin> set ''image''"
    by (simp add: sample_env_def sample_sniff_def jpeg_magic_def png_magic_def)
  note T = getExtension_subtype[THEN conjunct2, rule_format]
  have "getExtension ?E sample_png = takeWhile not_semicolon (takeWhile not_slash ''png'')"
    by (rule T[OF p])
  moreover have "getExtension ?E (jpeg_magic @ ''JFIF'') = takeWhile not_semicolon (takeWhile not_slash ''jpeg'')"
    by (rule T[OF j])
  ultimately show ?thesis by (simp add: not_slash_def not_semicolon_def)
qed

text \<open>
  Claim C6 does not hold of \<^verbatim>\<open>getExtension\<close>. For bytes without a signature the detected
  type is the fallback of \<^verbatim>\<open>http.DetectContentType\<close>, \<open>application/octet-stream\<close>, and the
  result is \<open>octet-stream\<close>, not the empty string.
\<close>
theorem getExtension_unknown_bytes:
  "DetectContentType (sample_env (DoError ''connection refused'')) [CHR 0x00, CHR 0x01] =
     ''application/octet-stream'' \<and>
   getExtension (sample_env (DoError ''connection refused'')) [CHR 0x00, CHR 0x01] =
     ''octet-stream''"
  by (simp add: getExtension_def sample_env_def sample_sniff_def png_magic_def jpeg_magic_def Let_def)

lemma digit_char_cases:
  assumes "k < (10::nat)"
  obtains "k = 0" | "k = 1" | "k = 2" | "k = 3" | "k = 4" | "k = 5" | "k = 6" | "k = 7" | "k = 8" | "k = 9"
proof -
  have "k = 0 \<or> k = 1 \<or> k = 2 \<or> k = 3 \<or> k = 4 \<or> k = 5 \<or> k = 6 \<or> k = 7 \<or> k = 8 \<or> k = 9"
    using assms by arith
  then show thesis using that by blast
qed

lemma digit_value_digit_char: "digit_value (digit_char n) = n mod 10"
proof -
  have "n mod 10 < 10" by simp
  then show ?thesis
    by (rule digit_char_cases) (simp_all add: digit_char_def digit_value_def)
qed

lemma is_digit_digit_char: "is_digit (digit_char n)"
proof -
  have "n mod 10 < 10" by simp
  then show ?thesis
    by (rule digit_char_cases) (simp_all add: digit_char_def is_digit_def)
qed

lemma dec_value_snoc: "dec_value (s @ [c]) = 10 * dec_value s + digit_value c"
  by (simp add: dec_value_def)

lemma dec_value_dec_nat: "dec_value (dec_nat n) = n"
proof (induction n rule: dec_nat.induct)
  case (1 n)
  show ?case
  proof (cases "n < 10")
    case True
    then show ?thesis
      by (subst dec_nat.simps) (simp add: dec_value_def digit_value_digit_char)
  next
    case False
    with 1 have "dec_value (dec_nat (n div 10)) = n div 10" by simp
    with False show ?thesis
      by (subst dec_nat.simps) (simp add: dec_value_snoc digit_value_digit_char)
  qed
qed

lemma dec_nat_digits: "\<forall>c \<in> set (dec_nat n). is_digit c"
proof (induction n rule: dec_nat.induct)
  case (1 n)
  show ?case
  proof (cases "n < 10")
    case True
    then show ?thesis by (subst dec_nat.simps) (simp add: is_digit_digit_char)
  next
    case False
    with 1 have "\<forall>c \<in> set (dec_nat (n div 10)). is_digit c" by simp
    with False show ?thesis by (subst dec_nat.simps) (simp add: is_digit_digit_char)
  qed
qed

lemma dec_nat_length: "n < 10 ^ k \<Longrightarrow> 0 < k \<Longrightarrow> length (dec_nat n) \<le> k"
proof (induction n arbitrary: k rule: dec_nat.induct)
  case (1 n)
  show ?case
  proof (cases "n < 10")
    case True
    with 1(3) show ?thesis by (subst dec_nat.simps) simp
  next
    case False
    then obtain j where k: "k = Suc j" using 1(3) by (cases k) auto
    with False 1(2) have j: "0 < j" by (cases j) auto
    from 1(2) k have "n div 10 < 10 ^ j" by (simp add: less_mult_imp_div_less mult.commute)
    with 1(1)[OF False this j] False k show ?thesis
      by (subst dec_nat.simps) simp
  qed
qed

lemma dec_value_zeros: "dec_value (replicate k (CHR ''0'') @ s) = dec_value s"
proof -
  have "foldl (\<lambda>a c. 10 * a + digit_value c) 0 (replicate k (CHR ''0'')) = 0"
    by (induction k) (simp_all add: digit_value_def)
  then show ?thesis by (simp add: dec_value_def)
qed

lemma pad8_props:
  assumes "n < 10 ^ 8"
  shows "length (pad8 (dec_nat n)) = 8" "dec_value (pad8 (dec_nat n)) = n"
    "\<forall>c \<in> set (pad8 (dec_nat n)). is_digit c"
proof -
  have "length (dec_nat n) \<le> 8" using dec_nat_length[OF assms] by simp
  then show "length (pad8 (dec_nat n)) = 8" by (simp add: pad8_def)
  show "dec_value (pad8 (dec_nat n)) = n"
    by (simp add: pad8_def dec_value_zeros dec_value_dec_nat)
  show "\<forall>c \<in> set (pad8 (dec_nat n)). is_digit c"
    using dec_nat_digits[of n] by (auto simp: pad8_def is_digit_def)
qed

lemma round_half_even_bound:
  assumes "0 < den"
  shows "\<bar>real (round_half_even num den) - real num / real den\<bar> \<le> 1 / 2"
proof -
  define q r where "q = num div den" and "r = num mod den"
  have n: "real num = real q * real den + real r"
    unfolding q_def r_def by (metis div_mult_mod_eq of_nat_add of_nat_mult)
  have r: "r < den" unfolding r_def using assms by simp
  have d: "real num / real den = real q + real r / real den"
    using assms by (simp add: n add_divide_distrib)
  show ?thesis
  proof (cases "den < 2 * r \<or> (2 * r = den \<and> odd q)")
    case True
    then have h: "real den \<le> 2 * real r" by (auto simp flip: of_nat_mult simp del: of_nat_mult) 
    have "round_half_even num den = q + 1"
      using True by (simp add: round_half_even_def Let_def q_def r_def)
    moreover have "real r / real den \<le> 1" using r assms by simp
    moreover have "1 / 2 \<le> real r / real den" using h assms by (simp add: field_simps)
    ultimately show ?thesis by (simp add: d)
  next
    case False
    then have h: "2 * real r \<le> real den" by (auto simp flip: of_nat_mult simp del: of_nat_mult)
    have "round_half_even num den = q"
      using False by (simp add: round_half_even_def Let_def q_def r_def)
    moreover have "real r / real den \<le> 1 / 2" using h assms by (simp add: field_simps)
    moreover have "0 \<le> real r / real den" by simp
    ultimately show ?thesis by (simp add: d)
  qed
qed

lemma scale_bound:
  fixes R y c :: real
  assumes "0 < c" "\<bar>R - y * c\<bar> \<le> 1 / 2"
  shows "\<bar>R / c - y\<bar> \<le> 1 / (2 * c)"
proof -
  have "R / c - y = (R - y * c) / c" using assms(1) by (simp add: field_simps)
  then have "\<bar>R / c - y\<bar> = \<bar>R - y * c\<bar> / c" using assms(1) by simp
  also have "\<dots> \<le> (1 / 2) / c" using assms by (intro divide_right_mono) simp_all
  finally show ?thesis by simp
qed

lemma scaled8_bound:
  "\<bar>real (scaled8 m e) / 10 ^ 8 - float32_abs (Finite neg m e)\<bar> \<le> 1 / (2 * 10 ^ 8)"
proof (cases "0 \<le> e")
  case True
  then show ?thesis by (simp add: scaled8_def float32_abs_def power_int_def)
next
  case False
  define k where "k = nat (- e)"
  define c :: real where "c = 10 ^ 8"
  define R where "R = real (round_half_even (m * 10 ^ 8) (2 ^ k))"
  have c: "0 < c" by (simp add: c_def)
  have p: "(2::real) powi e = 1 / 2 ^ k"
    using False by (simp add: power_int_def k_def field_simps)
  have "\<bar>real (round_half_even (m * 10 ^ 8) (2 ^ k)) - real (m * 10 ^ 8) / real (2 ^ k)\<bar> \<le> 1 / 2"
    by (rule round_half_even_bound) simp
  moreover have "real (m * 10 ^ 8) / real (2 ^ k) = (real m / 2 ^ k) * c"
    by (simp add: c_def)
  ultimately have "\<bar>R - (real m / 2 ^ k) * c\<bar> \<le> 1 / 2" by (simp only: R_def)
  from scale_bound[OF c this] have "\<bar>R / c - real m / 2 ^ k\<bar> \<le> 1 / (2 * c)" .
  moreover have "real (scaled8 m e) = R" using False by (simp add: scaled8_def R_def k_def)
  moreover have "float32_abs (Finite neg m e) = real m / 2 ^ k"
    by (simp add: float32_abs_def p)
  ultimately show ?thesis by (simp only: c_def)
qed

text \<open>
  Claim C7, as amended. \<^verbatim>\<open>paramToString\<close> encodes \<open>true\<close> as \<open>true\<close> and \<open>false\<close> as
  \<open>false\<close>. It encodes a finite \<^verbatim>\<open>float32\<close> as an optional minus sign, the integer part, a
  point and exactly eight digits; the number \<open>n / 10 ^ 8\<close> that this text stands for is
  within \<open>1 / (2 * 10 ^ 8)\<close> of the absolute value of the \<^verbatim>\<open>float32\<close>.
\<close>
theorem paramToString_scalars:
  "fst (paramToString env (VBool True) w) = (''true'', True) \<and>
   fst (paramToString env (VBool False) w) = (''false'', True) \<and>
   (\<exists>n ip fp.
      fst (paramToString env (VFloat32 (Finite neg m e)) w) =
        ((if neg then ''-'' else []) @ ip @ ''.'' @ fp, True) \<and>
      length fp = 8 \<and> (\<forall>c \<in> set (ip @ fp). is_digit c) \<and>
      dec_value ip * 10 ^ 8 + dec_value fp = n \<and>
      \<bar>real n / 10 ^ 8 - float32_abs (Finite neg m e)\<bar> \<le> 1 / (2 * 10 ^ 8))"
proof -
  define n where "n = scaled8 m e"
  have lt: "n mod 10 ^ 8 < 10 ^ 8" by simp
  have "fst (paramToString env (VFloat32 (Finite neg m e)) w) =
        ((if neg then ''-'' else []) @ dec_nat (n div 10 ^ 8) @ ''.'' @
           pad8 (dec_nat (n mod 10 ^ 8)), True)"
    by (simp add: paramToString_def Let_def n_def)
  moreover have "length (pad8 (dec_nat (n mod 10 ^ 8))) = 8"
    by (rule pad8_props(1)[OF lt])
  moreover have "\<forall>c \<in> set (dec_nat (n div 10 ^ 8) @ pad8 (dec_nat (n mod 10 ^ 8))). is_digit c"
    using dec_nat_digits[of "n div 10 ^ 8"] pad8_props(3)[OF lt] by auto
  moreover have "dec_value (dec_nat (n div 10 ^ 8)) * 10 ^ 8 +
      dec_value (pad8 (dec_nat (n mod 10 ^ 8))) = n"
    by (simp only: dec_value_dec_nat pad8_props(2)[OF lt]) simp
  moreover have "\<bar>real n / 10 ^ 8 - float32_abs (Finite neg m e)\<bar> \<le> 1 / (2 * 10 ^ 8)"
    unfolding n_def by (rule scaled8_bound)
  ultimately have "\<exists>n ip fp.
      fst (paramToString env (VFloat32 (Finite neg m e)) w) =
        ((if neg then ''-'' else []) @ ip @ ''.'' @ fp, True) \<and>
      length fp = 8 \<and> (\<forall>c \<in> set (ip @ fp). is_digit c) \<and>
      dec_value ip * 10 ^ 8 + dec_value fp = n \<and>
      \<bar>real n / 10 ^ 8 - float32_abs (Finite neg m e)\<bar> \<le> 1 / (2 * 10 ^ 8)"
    by blast
  moreover have "fst (paramToString env (VBool True) w) = (''true'', True)"
    "fst (paramToString env (VBool False) w) = (''false'', True)"
    by (simp_all add: paramToString_def FormatBool_def)
  ultimately show ?thesis by (intro conjI)
qed

lemma Sprintf_8f_one_and_a_half: "Sprintf_8f (Finite False 3 (- 1)) = ''1.50000000''"
proof -
  have s: "scaled8 3 (- 1) = 150000000"
    by (simp add: scaled8_def round_half_even_def Let_def)
  have d: "dec_nat (Suc 0) = ''1''" "dec_nat 50000000 = ''50000000''"
    by (simp_all add: dec_nat.simps digit_char_def)
  have p: "pad8 ''50000000'' = ''50000000''" by (simp add: pad8_def)
  show ?thesis by (simp add: s d p Let_def)
qed

lemma Sprintf_8f_pi: "Sprintf_8f (Finite False 13176795 (- 22)) = ''3.14159274''"
proof -
  have s: "scaled8 13176795 (- 22) = 314159274"
    by (simp add: scaled8_def round_half_even_def Let_def)
  have d: "dec_nat 3 = ''3''" "dec_nat 14159274 = ''14159274''"
    by (simp_all add: dec_nat.simps digit_char_def)
  have p: "pad8 ''14159274'' = ''14159274''" by (simp add: pad8_def)
  show ?thesis by (simp add: s d p Let_def)
qed

text \<open>The \<^verbatim>\<open>float32\<close> 1.5, that is \<open>3 * 2 ^ - 1\<close>, encodes to \<open>1.50000000\<close>.\<close>
theorem paramToString_scalars_witness:
  "fst (paramToString (sample_env (DoError ''connection refused'')) (VBool True) sample_world)
     = (''true'', True) \<and>
   fst (paramToString (sample_env (DoError ''connection refused'')) (VBool False) sample_world)
     = (''false'', True) \<and>
   fst (paramToString (sample_env (DoError ''connection refused''))
          (VFloat32 (Finite False 3 (- 1))) sample_world) = (''1.50000000'', True)"
proof -
  note T = paramToString_scalars[of "sample_env (DoError ''connection refused'')" sample_world
      False 3 "- 1"]
  have "fst (paramToString (sample_env (DoError ''connection refused''))
          (VFloat32 (Finite False 3 (- 1))) sample_world) = (''1.50000000'', True)"
    by (simp add: paramToString_def Sprintf_8f_one_and_a_half del: Sprintf_8f.simps)
  with T[THEN conjunct1] T[THEN conjunct2, THEN conjunct1] show ?thesis by (intro conjI)
qed

text \<open>
  Claim C7 does not hold for its float. \<^verbatim>\<open>paramToString\<close> formats a \<^verbatim>\<open>float32\<close>; the
  \<^verbatim>\<open>float32\<close> nearest to 3.14159265 is \<open>13176795 * 2 ^ - 22\<close> (it is less than half a unit
  in the last place, \<open>2 ^ - 23\<close>, away), and it encodes to \<open>3.14159274\<close>.
\<close>
theorem paramToString_float32_pi:
  "is_float32 (Finite False 13176795 (- 22)) \<and>
   \<bar>float32_abs (Finite False 13176795 (- 22)) - 314159265 / 10 ^ 8\<bar> < 1 / 2 ^ 23 \<and>
   fst (paramToString (sample_env (DoError ''connection refused''))
          (VFloat32 (Finite False 13176795 (- 22))) sample_world) = (''3.14159274'', True) \<and>
   ''3.14159274'' \<noteq> ''3.14159265''"
proof -
  have "is_float32 (Finite False 13176795 (- 22))" by (simp add: is_float32_def)
  moreover have "\<bar>float32_abs (Finite False 13176795 (- 22)) - 314159265 / 10 ^ 8\<bar> < 1 / 2 ^ 23"
    by (simp add: float32_abs_def power_int_minus field_simps)
  moreover have "fst (paramToString (sample_env (DoError ''connection refused''))
          (VFloat32 (Finite False 13176795 (- 22))) sample_world) = (''3.14159274'', True)"
    by (simp add: paramToString_def Sprintf_8f_pi del: Sprintf_8f.simps)
  moreover have "''3.14159274'' \<noteq> ''3.14159265''" by simp
  ultimately show ?thesis by (intro conjI)
qed

end
